theory Spec2Isabelle
  imports Main "HOL-Library.AList"
begin

section \<open>Data model of \<open>server.js\<close>\<close>

text \<open>
  The advice-chat core of \<open>server.js\<close> keeps five process-wide structures:
  \<open>activeUsers\<close>, \<open>userSockets\<close>, \<open>roomMembers\<close>, \<open>adviceQueue\<close> and
  \<open>activeAdviceSessions\<close>. Every socket.io handler runs to completion before the next
  one starts, so a handler is a function from the state to the new state and the list of
  events it emits, in the order of the \<open>emit\<close> calls.

  Socket ids, user ids, session ids and room names are strings. A JavaScript value that
  may be \<open>undefined\<close> or \<open>null\<close> is an \<open>option\<close>; the empty string is the one falsy
  string.
\<close>

type_synonym socketId = string
type_synonym userId = string
type_synonym sessionId = string

text \<open>\<open>EXPERIENCE_LEVELS\<close>: the three values a validated level can have.\<close>

datatype level = Beginner | Intermediate | Advanced

text \<open>\<open>Object.values(EXPERIENCE_LEVELS).includes(level)\<close> on the level of a payload.\<close>

definition parse_level :: "string \<Rightarrow> level option" where
  "parse_level l =
     (if l = ''Beginner'' then Some Beginner
      else if l = ''Intermediate'' then Some Intermediate
      else if l = ''Advanced'' then Some Advanced
      else None)"

definition GENERAL_ROOMS :: "string list" where
  "GENERAL_ROOMS =
     [''Freshwater'', ''Saltwater'', ''Reef'', ''Community Tank'', ''Photos & Stories'']"

text \<open>Truthiness of an optional string, and JavaScript's \<open>a || b\<close> on such values.\<close>

definition truthy :: "string option \<Rightarrow> bool" where
  "truthy t = (case t of None \<Rightarrow> False | Some x \<Rightarrow> x \<noteq> [])"

definition js_or :: "string option \<Rightarrow> string option \<Rightarrow> string option" where
  "js_or a b = (if truthy a then a else b)"

definition or_default :: "string option \<Rightarrow> string \<Rightarrow> string" where
  "or_default a d = (case a of None \<Rightarrow> d | Some x \<Rightarrow> if x = [] then d else x)"

text \<open>
  What a handler reads from outside the state: \<open>Date.now()\<close> and the suffix
  \<open>Math.random().toString(36).substr(2, 9)\<close>. One handler invocation sees one clock
  reading.
\<close>

record env =
  now :: nat
  randomSuffix :: string

definition digit_char :: "nat \<Rightarrow> char" where
  "digit_char d = ''0123456789'' ! d"

function decimal :: "nat \<Rightarrow> string" where
  "decimal n = (if n < 10 then [digit_char n] else decimal (n div 10) @ [digit_char (n mod 10)])"
  by pat_completeness auto
termination
  by (relation "measure id") auto

declare decimal.simps [simp del]

text \<open>\<open>generateSessionId\<close>: \<open>`advice_${Date.now()}_${random suffix}`\<close>.\<close>

definition generateSessionId :: "env \<Rightarrow> sessionId" where
  "generateSessionId e = ''advice_'' @ decimal (now e) @ ''_'' @ randomSuffix e"

subsection \<open>Records\<close>

text \<open>The payload of \<open>authenticate\<close> and the \<open>userInfo\<close> object built from it.\<close>

record userData =
  ud_userId :: "string option"
  ud_username :: "string option"
  ud_level :: "string option"
  ud_tankType :: "string option"
  ud_tankSize :: "string option"
  ud_favoriteFish :: "string list option"
  ud_favoritePlants :: "string list option"
  ud_profilePicture :: "string option"

record userInfo =
  u_userId :: userId
  u_username :: string
  u_level :: string
  u_tankType :: "string option"
  u_tankSize :: "string option"
  u_favoriteFish :: "string list"
  u_favoritePlants :: "string list"
  u_profilePicture :: "string option"
  u_socketId :: socketId
  u_connectedAt :: nat

text \<open>
  A session participant \<open>{socketId, userId, username, level}\<close>; a queue entry has the
  same four fields and \<open>topic\<close>, \<open>joinedAt\<close>.
\<close>

record participant =
  socketId :: socketId
  userId :: userId
  username :: string
  level :: level

record queueEntry = participant +
  topic :: "string option"
  joinedAt :: nat

record adviceQueue =
  beginner :: "queueEntry list"
  intermediate :: "queueEntry list"
  advanced :: "queueEntry list"

record messageData =
  m_id :: string
  m_sessionId :: sessionId
  m_userId :: userId
  m_username :: string
  m_message :: string
  m_photo :: "string option"
  m_timestamp :: nat

record feedbackEntry =
  rating :: int
  comment :: "string option"
  f_timestamp :: nat

text \<open>
  \<open>session.feedback\<close> is a plain object, created as \<open>{}\<close> and written with
  \<open>session.feedback[userInfo.userId] = {...}\<close>. An object has its own properties and a
  prototype, \<open>Object.prototype\<close> at first (\<open>None\<close> below). An assignment creates or
  overwrites an own property for every property name but \<open>__proto__\<close>: that name is an
  accessor inherited from \<open>Object.prototype\<close>, whose setter, given an object, makes it
  the prototype of the receiver and stores no own property.
\<close>

record feedbackObject =
  own_props :: "string \<rightharpoonup> feedbackEntry"
  prototype :: "feedbackEntry option"

definition empty_object :: feedbackObject where
  "empty_object = \<lparr>own_props = Map.empty, prototype = None\<rparr>"

definition assign_property :: "feedbackObject \<Rightarrow> string \<Rightarrow> feedbackEntry \<Rightarrow> feedbackObject" where
  "assign_property obj key v =
     (if key = ''__proto__'' then obj\<lparr>prototype := Some v\<rparr>
      else obj\<lparr>own_props := (own_props obj)(key \<mapsto> v)\<rparr>)"

record session =
  s_sessionId :: sessionId
  user1 :: participant
  user2 :: participant
  s_topic :: "string option"
  createdAt :: nat
  messages :: "messageData list"
  ended :: bool
  endedAt :: "nat option"
  endedBy :: "socketId option"
  feedback :: feedbackObject

text \<open>
  The two \<open>Map\<close>s that are iterated (\<open>roomMembers\<close>, \<open>activeAdviceSessions\<close>) are
  association lists in insertion order: \<open>Map.set\<close> is \<open>AList.update\<close>, which overwrites
  an existing key in place and appends a new one, and \<open>Map.get\<close> is \<open>map_of\<close>. The two
  that are only read and written by key are partial functions.
\<close>

record state =
  activeUsers :: "socketId \<rightharpoonup> userInfo"
  userSockets :: "userId \<rightharpoonup> socketId"
  roomMembers :: "(string \<times> socketId set) list"
  adviceQueue :: adviceQueue
  activeAdviceSessions :: "(sessionId \<times> session) list"

definition init_state :: state where
  "init_state =
     \<lparr>activeUsers = Map.empty, userSockets = Map.empty, roomMembers = [],
      adviceQueue = \<lparr>beginner = [], intermediate = [], advanced = []\<rparr>,
      activeAdviceSessions = []\<rparr>"

subsection \<open>Outbound events\<close>

text \<open>
  \<open>socket.emit\<close> and \<open>io.to(socketId).emit\<close> address one connection;
  \<open>socket.to(room).emit\<close> addresses the members of a room other than the sender.
\<close>

datatype target = ToSocket socketId | ToRoomExcept string socketId

datatype out_event =
    Error string
  | Authenticated userId string
  | RoomJoined string
  | UserJoinedRoom string string
  | RoomLeft string
  | Queued level "string option" nat
  | Matched sessionId string level "string option"
  | QueueLeft
  | AdviceMessageOut messageData
  | AdviceMessageSent string
  | SessionEnded sessionId
  | RequestFeedback sessionId
  | FeedbackSubmitted sessionId
  | UserLeftRoom string string
  | PartnerDisconnected sessionId

type_synonym emit = "target \<times> out_event"

section \<open>Matching logic\<close>

text \<open>\<open>adviceQueue[level.toLowerCase()]\<close> for a validated level.\<close>

definition queue_of :: "level \<Rightarrow> adviceQueue \<Rightarrow> queueEntry list" where
  "queue_of l q =
     (case l of Beginner \<Rightarrow> beginner q | Intermediate \<Rightarrow> intermediate q
      | Advanced \<Rightarrow> advanced q)"

definition queue_push :: "level \<Rightarrow> queueEntry \<Rightarrow> adviceQueue \<Rightarrow> adviceQueue" where
  "queue_push l x q =
     (case l of Beginner \<Rightarrow> q\<lparr>beginner := beginner q @ [x]\<rparr>
      | Intermediate \<Rightarrow> q\<lparr>intermediate := intermediate q @ [x]\<rparr>
      | Advanced \<Rightarrow> q\<lparr>advanced := advanced q @ [x]\<rparr>)"

text \<open>The first part of \<open>findMatch\<close>: the candidate list chosen for a level.\<close>

definition candidates_for :: "level \<Rightarrow> adviceQueue \<Rightarrow> queueEntry list" where
  "candidates_for l q =
     (case l of
        Beginner \<Rightarrow>
          (if intermediate q \<noteq> [] then intermediate q
           else if advanced q \<noteq> [] then advanced q else [])
      | Intermediate \<Rightarrow>
          (if intermediate q \<noteq> [] then intermediate q
           else if advanced q \<noteq> [] then advanced q else [])
      | Advanced \<Rightarrow>
          (if beginner q \<noteq> [] then beginner q
           else if intermediate q \<noteq> [] then intermediate q
           else if advanced q \<noteq> [] then advanced q else []))"

text \<open>
  \<open>findMatch(level, topic)\<close>: with a truthy topic the first candidate with that topic,
  otherwise (or when there is none) \<open>candidates[0]\<close>, or \<open>null\<close> on an empty list.
\<close>

definition findMatch :: "level \<Rightarrow> string option \<Rightarrow> adviceQueue \<Rightarrow> queueEntry option" where
  "findMatch l tp q =
     (let candidates = candidates_for l q;
          topicMatch = (if truthy tp \<and> candidates \<noteq> []
                        then find (\<lambda>user. topic user = tp) candidates else None)
      in case topicMatch of
           Some m \<Rightarrow> Some m
         | None \<Rightarrow> (case candidates of [] \<Rightarrow> None | c # _ \<Rightarrow> Some c))"

definition removeFromQueue :: "socketId \<Rightarrow> adviceQueue \<Rightarrow> adviceQueue" where
  "removeFromQueue sid q =
     \<lparr>beginner = filter (\<lambda>user. socketId user \<noteq> sid) (beginner q),
      intermediate = filter (\<lambda>user. socketId user \<noteq> sid) (intermediate q),
      advanced = filter (\<lambda>user. socketId user \<noteq> sid) (advanced q)\<rparr>"

section \<open>Event handlers\<close>

subsection \<open>Registry and rooms\<close>

definition authenticate :: "env \<Rightarrow> socketId \<Rightarrow> userData \<Rightarrow> state \<Rightarrow> state \<times> emit list" where
  "authenticate e sid ud s =
     (let info = \<lparr>u_userId = or_default (ud_userId ud) sid,
                  u_username = or_default (ud_username ud) (''User_'' @ take 6 sid),
                  u_level = or_default (ud_level ud) ''Beginner'',
                  u_tankType = js_or (ud_tankType ud) None,
                  u_tankSize = js_or (ud_tankSize ud) None,
                  u_favoriteFish = (case ud_favoriteFish ud of None \<Rightarrow> [] | Some xs \<Rightarrow> xs),
                  u_favoritePlants = (case ud_favoritePlants ud of None \<Rightarrow> [] | Some xs \<Rightarrow> xs),
                  u_profilePicture = js_or (ud_profilePicture ud) None,
                  u_socketId = sid,
                  u_connectedAt = now e\<rparr>
      in (s\<lparr>activeUsers := (activeUsers s)(sid \<mapsto> info),
            userSockets := (userSockets s)(u_userId info \<mapsto> sid)\<rparr>,
          [(ToSocket sid, Authenticated (u_userId info) (u_username info))]))"

text \<open>\<open>userInfo?.username || 'Anonymous'\<close>.\<close>

definition display_name :: "userInfo option \<Rightarrow> string" where
  "display_name ui = or_default (map_option u_username ui) ''Anonymous''"

definition join_room :: "socketId \<Rightarrow> string \<Rightarrow> state \<Rightarrow> state \<times> emit list" where
  "join_room sid roomName s =
     (if roomName \<notin> set GENERAL_ROOMS then (s, [(ToSocket sid, Error ''Invalid room name'')])
      else
        let rm = (case map_of (roomMembers s) roomName of
                    None \<Rightarrow> AList.update roomName {} (roomMembers s)
                  | Some _ \<Rightarrow> roomMembers s);
            rm' = AList.map_entry roomName (insert sid) rm
        in (s\<lparr>roomMembers := rm'\<rparr>,
            [(ToSocket sid, RoomJoined roomName),
             (ToRoomExcept roomName sid,
              UserJoinedRoom (display_name (activeUsers s sid)) roomName)]))"

definition leave_room :: "socketId \<Rightarrow> string \<Rightarrow> state \<Rightarrow> state \<times> emit list" where
  "leave_room sid roomName s =
     (s\<lparr>roomMembers := AList.map_entry roomName (\<lambda>members. members - {sid}) (roomMembers s)\<rparr>,
      [(ToSocket sid, RoomLeft roomName)])"

subsection \<open>Advice queue and matcher\<close>

text \<open>The object literals of \<open>attemptMatch\<close> and of the \<open>join-advice-queue\<close> handler.\<close>

definition participant_of :: "socketId \<Rightarrow> queueEntry \<Rightarrow> participant" where
  "participant_of sid u =
     \<lparr>socketId = sid, userId = userId u, username = username u, level = level u\<rparr>"

definition new_session ::
  "env \<Rightarrow> socketId \<Rightarrow> queueEntry \<Rightarrow> queueEntry \<Rightarrow> string option \<Rightarrow> session" where
  "new_session e sid entry match tp =
     \<lparr>s_sessionId = generateSessionId e,
      user1 = participant_of sid entry,
      user2 = participant_of (socketId match) match,
      s_topic = js_or tp (js_or (topic match) None),
      createdAt = now e,
      messages = [],
      ended = False,
      endedAt = None,
      endedBy = None,
      feedback = empty_object\<rparr>"

definition new_entry ::
  "env \<Rightarrow> socketId \<Rightarrow> userInfo \<Rightarrow> level \<Rightarrow> string option \<Rightarrow> queueEntry" where
  "new_entry e sid info l tp =
     \<lparr>socketId = sid, userId = u_userId info, username = u_username info, level = l,
      topic = js_or tp None, joinedAt = now e\<rparr>"

text \<open>
  \<open>attemptMatch(socketId, level, topic)\<close>: the caller's own entry must be in the queue
  of its level; a match other than the caller removes both from all queues, stores the
  new session and notifies both.
\<close>

definition attemptMatch ::
  "env \<Rightarrow> socketId \<Rightarrow> level \<Rightarrow> string option \<Rightarrow> state \<Rightarrow> state \<times> emit list" where
  "attemptMatch e sid l tp s =
     (case find (\<lambda>u. socketId u = sid) (queue_of l (adviceQueue s)) of
        None \<Rightarrow> (s, [])
      | Some entry \<Rightarrow>
          (case findMatch l tp (adviceQueue s) of
             None \<Rightarrow> (s, [])
           | Some match \<Rightarrow>
               if socketId match \<noteq> sid then
                 let newId = generateSessionId e;
                     q' = removeFromQueue (socketId match) (removeFromQueue sid (adviceQueue s));
                     sess = new_session e sid entry match tp
                 in (s\<lparr>adviceQueue := q',
                       activeAdviceSessions :=
                         AList.update newId sess (activeAdviceSessions s)\<rparr>,
                     [(ToSocket sid,
                       Matched newId (username match) (level match) (s_topic sess)),
                      (ToSocket (socketId match),
                       Matched newId (username entry) (level entry) (s_topic sess))])
               else (s, [])))"

definition join_advice_queue ::
  "env \<Rightarrow> socketId \<Rightarrow> string \<Rightarrow> string option \<Rightarrow> state \<Rightarrow> state \<times> emit list" where
  "join_advice_queue e sid lvl tp s =
     (case activeUsers s sid of
        None \<Rightarrow> (s, [(ToSocket sid, Error ''Not authenticated'')])
      | Some info \<Rightarrow>
          (case parse_level lvl of
             None \<Rightarrow> (s, [(ToSocket sid, Error ''Invalid experience level'')])
           | Some l \<Rightarrow>
               let q1 = removeFromQueue sid (adviceQueue s);
                   q2 = queue_push l (new_entry e sid info l tp) q1;
                   r = attemptMatch e sid l tp (s\<lparr>adviceQueue := q2\<rparr>)
               in (fst r, (ToSocket sid, Queued l tp (length (queue_of l q2))) # snd r)))"

definition leave_advice_queue :: "socketId \<Rightarrow> state \<Rightarrow> state \<times> emit list" where
  "leave_advice_queue sid s =
     (s\<lparr>adviceQueue := removeFromQueue sid (adviceQueue s)\<rparr>, [(ToSocket sid, QueueLeft)])"

subsection \<open>Sessions\<close>

text \<open>\<open>session.user1.socketId === socket.id ? session.user2.socketId : session.user1.socketId\<close>.\<close>

definition partnerSocketId :: "session \<Rightarrow> socketId \<Rightarrow> socketId" where
  "partnerSocketId sess sid =
     (if socketId (user1 sess) = sid then socketId (user2 sess) else socketId (user1 sess))"

definition is_participant :: "session \<Rightarrow> socketId \<Rightarrow> bool" where
  "is_participant sess sid \<longleftrightarrow> socketId (user1 sess) = sid \<or> socketId (user2 sess) = sid"

definition advice_message ::
  "env \<Rightarrow> socketId \<Rightarrow> sessionId \<Rightarrow> string \<Rightarrow> string option \<Rightarrow> state \<Rightarrow> state \<times> emit list" where
  "advice_message e sid sessId message photo s =
     (case activeUsers s sid of
        None \<Rightarrow> (s, [(ToSocket sid, Error ''Not authenticated'')])
      | Some info \<Rightarrow>
          (case map_of (activeAdviceSessions s) sessId of
             None \<Rightarrow> (s, [(ToSocket sid, Error ''Session not found'')])
           | Some sess \<Rightarrow>
               if socketId (user1 sess) \<noteq> sid \<and> socketId (user2 sess) \<noteq> sid
               then (s, [(ToSocket sid, Error ''Not authorized for this session'')])
               else if ended sess
               then (s, [(ToSocket sid, Error ''Session has ended'')])
               else
                 let msg = \<lparr>m_id = ''advice_msg_'' @ decimal (now e) @ ''_'' @ randomSuffix e,
                            m_sessionId = sessId,
                            m_userId = u_userId info,
                            m_username = u_username info,
                            m_message = message,
                            m_photo = js_or photo None,
                            m_timestamp = now e\<rparr>;
                     sess' = sess\<lparr>messages := messages sess @ [msg]\<rparr>
                 in (s\<lparr>activeAdviceSessions :=
                         AList.update sessId sess' (activeAdviceSessions s)\<rparr>,
                     [(ToSocket (partnerSocketId sess sid), AdviceMessageOut msg),
                      (ToSocket sid, AdviceMessageSent (m_id msg))])))"

definition end_advice_session ::
  "env \<Rightarrow> socketId \<Rightarrow> sessionId \<Rightarrow> state \<Rightarrow> state \<times> emit list" where
  "end_advice_session e sid sessId s =
     (case map_of (activeAdviceSessions s) sessId of
        None \<Rightarrow> (s, [(ToSocket sid, Error ''Session not found'')])
      | Some sess \<Rightarrow>
          if socketId (user1 sess) \<noteq> sid \<and> socketId (user2 sess) \<noteq> sid
          then (s, [(ToSocket sid, Error ''Not authorized'')])
          else
            let sess' = sess\<lparr>ended := True, endedAt := Some (now e), endedBy := Some sid\<rparr>;
                partner = partnerSocketId sess sid
            in (s\<lparr>activeAdviceSessions :=
                    AList.update sessId sess' (activeAdviceSessions s)\<rparr>,
                [(ToSocket partner, SessionEnded sessId),
                 (ToSocket sid, SessionEnded sessId),
                 (ToSocket partner, RequestFeedback sessId),
                 (ToSocket sid, RequestFeedback sessId)]))"

definition submit_feedback ::
  "env \<Rightarrow> socketId \<Rightarrow> sessionId \<Rightarrow> int \<Rightarrow> string option \<Rightarrow> state \<Rightarrow> state \<times> emit list" where
  "submit_feedback e sid sessId r c s =
     (case map_of (activeAdviceSessions s) sessId of
        None \<Rightarrow> (s, [(ToSocket sid, Error ''Session not found'')])
      | Some sess \<Rightarrow>
          (case activeUsers s sid of
             None \<Rightarrow> (s, [(ToSocket sid, Error ''Not authenticated'')])
           | Some info \<Rightarrow>
               let sess' = sess\<lparr>feedback := assign_property (feedback sess) (u_userId info)
                             \<lparr>rating = r, comment = js_or c None, f_timestamp = now e\<rparr>\<rparr>
               in (s\<lparr>activeAdviceSessions :=
                       AList.update sessId sess' (activeAdviceSessions s)\<rparr>,
                   [(ToSocket sid, FeedbackSubmitted sessId)])))"

subsection \<open>Disconnect\<close>

text \<open>The two \<open>forEach\<close> loops of the disconnect handler, one entry at a time.\<close>

fun leave_all_rooms ::
  "socketId \<Rightarrow> string \<Rightarrow> (string \<times> socketId set) list \<Rightarrow> (string \<times> socketId set) list \<times> emit list" where
  "leave_all_rooms sid name [] = ([], [])"
| "leave_all_rooms sid name ((roomName, members) # rest) =
     (let r = leave_all_rooms sid name rest
      in if sid \<in> members
         then ((roomName, members - {sid}) # fst r,
               (ToRoomExcept roomName sid, UserLeftRoom name roomName) # snd r)
         else ((roomName, members) # fst r, snd r))"

fun end_sessions_of ::
  "env \<Rightarrow> socketId \<Rightarrow> (sessionId \<times> session) list \<Rightarrow> (sessionId \<times> session) list \<times> emit list" where
  "end_sessions_of e sid [] = ([], [])"
| "end_sessions_of e sid ((sessId, sess) # rest) =
     (let r = end_sessions_of e sid rest
      in if (socketId (user1 sess) = sid \<or> socketId (user2 sess) = sid) \<and> \<not> ended sess
         then ((sessId, sess\<lparr>ended := True, endedAt := Some (now e)\<rparr>) # fst r,
               (ToSocket (partnerSocketId sess sid), PartnerDisconnected sessId) # snd r)
         else ((sessId, sess) # fst r, snd r))"

definition disconnect :: "env \<Rightarrow> socketId \<Rightarrow> state \<Rightarrow> state \<times> emit list" where
  "disconnect e sid s =
     (let info = activeUsers s sid;
          q' = removeFromQueue sid (adviceQueue s);
          rooms = leave_all_rooms sid (display_name info) (roomMembers s);
          sessions = end_sessions_of e sid (activeAdviceSessions s);
          s1 = s\<lparr>adviceQueue := q', roomMembers := fst rooms,
                 activeAdviceSessions := fst sessions\<rparr>;
          s2 = (case info of
                  None \<Rightarrow> s1
                | Some ui \<Rightarrow> s1\<lparr>userSockets := (userSockets s1)(u_userId ui := None),
                                activeUsers := (activeUsers s1)(sid := None)\<rparr>)
      in (s2, snd rooms @ snd sessions))"

subsection \<open>The dispatcher\<close>

text \<open>
  The inbound events that write one of the five structures. The other handlers
  (\<open>room-message\<close>, \<open>react-to-message\<close>, \<open>block-user\<close>, \<open>report-user\<close>,
  \<open>get-profile\<close>, \<open>get-leaderboard\<close>) only emit.
\<close>

datatype event =
    Authenticate userData
  | JoinRoom string
  | LeaveRoom string
  | JoinAdviceQueue string "string option"
  | LeaveAdviceQueue
  | AdviceMessage sessionId string "string option"
  | EndAdviceSession sessionId
  | SubmitFeedback sessionId int "string option"
  | Disconnect

fun handle :: "env \<Rightarrow> socketId \<Rightarrow> event \<Rightarrow> state \<Rightarrow> state \<times> emit list" where
  "handle e sid (Authenticate ud) s = authenticate e sid ud s"
| "handle e sid (JoinRoom r) s = join_room sid r s"
| "handle e sid (LeaveRoom r) s = leave_room sid r s"
| "handle e sid (JoinAdviceQueue l tp) s = join_advice_queue e sid l tp s"
| "handle e sid LeaveAdviceQueue s = leave_advice_queue sid s"
| "handle e sid (AdviceMessage i m p) s = advice_message e sid i m p s"
| "handle e sid (EndAdviceSession i) s = end_advice_session e sid i s"
| "handle e sid (SubmitFeedback i r c) s = submit_feedback e sid i r c s"
| "handle e sid Disconnect s = disconnect e sid s"

text \<open>A run: the events arrive one after the other, each with its connection and environment.\<close>

fun run :: "(env \<times> socketId \<times> event) list \<Rightarrow> state \<Rightarrow> state" where
  "run [] s = s"
| "run ((e, sid, ev) # rest) s = run rest (fst (handle e sid ev s))"

section \<open>The preference table of the specification\<close>

text \<open>
  The table of the specification, in its words: Beginner searches Intermediate, then
  Advanced; Intermediate searches Intermediate, then Advanced; Advanced searches
  Beginner, then Intermediate, then Advanced. The search stops at the first non-empty
  pool.
\<close>

definition spec_search_order :: "level \<Rightarrow> level list" where
  "spec_search_order l =
     (case l of Beginner \<Rightarrow> [Intermediate, Advanced]
      | Intermediate \<Rightarrow> [Intermediate, Advanced]
      | Advanced \<Rightarrow> [Beginner, Intermediate, Advanced])"

definition first_nonempty_pool :: "level list \<Rightarrow> adviceQueue \<Rightarrow> queueEntry list option" where
  "first_nonempty_pool ls q =
     map_option (\<lambda>p. queue_of p q) (find (\<lambda>p. queue_of p q \<noteq> []) ls)"

section \<open>Auxiliary notions\<close>

text \<open>All entries of the three queues, and the exclusivity invariant on them.\<close>

definition all_entries :: "adviceQueue \<Rightarrow> queueEntry list" where
  "all_entries q = beginner q @ intermediate q @ advanced q"

definition queue_exclusive :: "adviceQueue \<Rightarrow> bool" where
  "queue_exclusive q \<longleftrightarrow> distinct (map socketId (all_entries q))"

text \<open>The state in which the join handler calls \<open>attemptMatch\<close>.\<close>

definition queued_state :: "env \<Rightarrow> socketId \<Rightarrow> userInfo \<Rightarrow> level \<Rightarrow> string option \<Rightarrow> state \<Rightarrow> state" where
  "queued_state e sid info l tp s =
     s\<lparr>adviceQueue := queue_push l (new_entry e sid info l tp)
                         (removeFromQueue sid (adviceQueue s))\<rparr>"

text \<open>
  The connections that have disconnected in the course of a run, and the link between
  the registry and the two other structures: every queued connection is authenticated,
  and every participant of a session is authenticated unless it has disconnected.
\<close>

definition disconnected :: "(env \<times> socketId \<times> event) list \<Rightarrow> socketId set" where
  "disconnected tr = (fst \<circ> snd) ` set (filter (\<lambda>x. snd (snd x) = Disconnect) tr)"

definition registry_covers :: "socketId set \<Rightarrow> state \<Rightarrow> bool" where
  "registry_covers D s \<longleftrightarrow>
     (\<forall>u \<in> set (all_entries (adviceQueue s)). activeUsers s (socketId u) \<noteq> None) \<and>
     (\<forall>i sess c. (i, sess) \<in> set (activeAdviceSessions s) \<and> is_participant sess c \<longrightarrow>
         activeUsers s c \<noteq> None \<or> c \<in> D)"

section \<open>Concrete scenarios\<close>

text \<open>Sample data on which the theorems below are instantiated.\<close>

definition ex_env :: env where
  "ex_env = \<lparr>now = 1700, randomSuffix = ''k3x9q2m1z''\<rparr>"

definition ex_info :: "socketId \<Rightarrow> userInfo" where
  "ex_info sid =
     \<lparr>u_userId = ''u-'' @ sid, u_username = sid, u_level = ''Beginner'',
      u_tankType = None, u_tankSize = None, u_favoriteFish = [], u_favoritePlants = [],
      u_profilePicture = None, u_socketId = sid, u_connectedAt = 1000\<rparr>"

definition ex_entry :: "socketId \<Rightarrow> level \<Rightarrow> string option \<Rightarrow> nat \<Rightarrow> queueEntry" where
  "ex_entry sid l tp t =
     \<lparr>socketId = sid, userId = ''u-'' @ sid, username = sid, level = l,
      topic = tp, joinedAt = t\<rparr>"

text \<open>
  One Intermediate and one Advanced user wait; \<open>b1\<close> is authenticated and not queued.
\<close>

definition ex_queue_ia :: adviceQueue where
  "ex_queue_ia =
     \<lparr>beginner = [],
      intermediate = [ex_entry ''i1'' Intermediate None 1200],
      advanced = [ex_entry ''a1'' Advanced None 1100]\<rparr>"

definition ex_state_ia :: state where
  "ex_state_ia =
     \<lparr>activeUsers = [''b1'' \<mapsto> ex_info ''b1'', ''i1'' \<mapsto> ex_info ''i1'', ''a1'' \<mapsto> ex_info ''a1''],
      userSockets = [''u-b1'' \<mapsto> ''b1'', ''u-i1'' \<mapsto> ''i1'', ''u-a1'' \<mapsto> ''a1''],
      roomMembers = [],
      adviceQueue = ex_queue_ia,
      activeAdviceSessions = []\<rparr>"

text \<open>
  Two Intermediate users wait, \<open>A\<close> since 1100 and \<open>B\<close> since 1200; \<open>c1\<close> is authenticated
  and not queued.
\<close>

definition ex_state_ab :: state where
  "ex_state_ab =
     \<lparr>activeUsers = [''A'' \<mapsto> ex_info ''A'', ''B'' \<mapsto> ex_info ''B'', ''c1'' \<mapsto> ex_info ''c1''],
      userSockets = [''u-A'' \<mapsto> ''A'', ''u-B'' \<mapsto> ''B'', ''u-c1'' \<mapsto> ''c1''],
      roomMembers = [],
      adviceQueue = \<lparr>beginner = [],
                     intermediate = [ex_entry ''A'' Intermediate None 1100,
                                     ex_entry ''B'' Intermediate None 1200],
                     advanced = []\<rparr>,
      activeAdviceSessions = []\<rparr>"

text \<open>
  \<open>c1\<close> waits as a Beginner with the topic Plants and nobody else is queued: a join of
  \<open>c1\<close> as Intermediate finds no partner.
\<close>

definition ex_state_rejoin :: state where
  "ex_state_rejoin =
     \<lparr>activeUsers = [''c1'' \<mapsto> ex_info ''c1''],
      userSockets = [''u-c1'' \<mapsto> ''c1''],
      roomMembers = [],
      adviceQueue = \<lparr>beginner = [ex_entry ''c1'' Beginner (Some ''Plants'') 1100],
                     intermediate = [], advanced = []\<rparr>,
      activeAdviceSessions = []\<rparr>"

text \<open>An \<open>authenticate\<close> payload that carries a user name only.\<close>

definition ex_ud :: "string \<Rightarrow> userData" where
  "ex_ud n =
     \<lparr>ud_userId = None, ud_username = Some n, ud_level = None, ud_tankType = None,
      ud_tankSize = None, ud_favoriteFish = None, ud_favoritePlants = None,
      ud_profilePicture = None\<rparr>"

text \<open>A run in which \<open>A\<close> joins twice, \<open>B\<close> once, and \<open>A\<close> disconnects.\<close>

definition ex_run :: "(env \<times> socketId \<times> event) list" where
  "ex_run =
     [(ex_env, ''A'', Authenticate (ex_ud ''A'')),
      (ex_env, ''A'', JoinAdviceQueue ''Beginner'' None),
      (ex_env, ''A'', JoinAdviceQueue ''Intermediate'' (Some ''Fish'')),
      (ex_env, ''B'', JoinAdviceQueue ''Advanced'' None),
      (ex_env, ''A'', Disconnect)]"

text \<open>
  A run in which \<open>A\<close> and \<open>B\<close> authenticate, \<open>A\<close> joins as Beginner, \<open>B\<close> joins as
  Advanced and is matched with \<open>A\<close>, and \<open>A\<close> ends the session; and the session that the
  run leaves in the store.
\<close>

definition ex_run_ended :: "(env \<times> socketId \<times> event) list" where
  "ex_run_ended =
     [(ex_env, ''A'', Authenticate (ex_ud ''A'')),
      (ex_env, ''B'', Authenticate (ex_ud ''B'')),
      (ex_env, ''A'', JoinAdviceQueue ''Beginner'' None),
      (ex_env, ''B'', JoinAdviceQueue ''Advanced'' None),
      (ex_env, ''A'', EndAdviceSession ''advice_1700_k3x9q2m1z'')]"

definition ex_session_run :: session where
  "ex_session_run =
     \<lparr>s_sessionId = ''advice_1700_k3x9q2m1z'',
      user1 = \<lparr>socketId = ''B'', userId = ''B'', username = ''B'', level = Advanced\<rparr>,
      user2 = \<lparr>socketId = ''A'', userId = ''A'', username = ''A'', level = Beginner\<rparr>,
      s_topic = None, createdAt = 1700, messages = [], ended = True,
      endedAt = Some 1700, endedBy = Some ''A'', feedback = empty_object\<rparr>"

text \<open>
  The state in which \<open>attemptMatch\<close> runs when \<open>c1\<close> has joined \<open>ex_state_ab\<close> as Advanced.
\<close>

definition ex_state_ab_queued :: state where
  "ex_state_ab_queued = queued_state ex_env ''c1'' (ex_info ''c1'') Advanced None ex_state_ab"

definition ex_env_later :: env where
  "ex_env_later = \<lparr>now = 1900, randomSuffix = ''p0o9i8u7y''\<rparr>"

text \<open>
  \<open>x1\<close> waits as Intermediate without a topic; \<open>r1\<close> is authenticated and not queued.
\<close>

definition ex_state_topic :: state where
  "ex_state_topic =
     \<lparr>activeUsers = [''x1'' \<mapsto> ex_info ''x1'', ''r1'' \<mapsto> ex_info ''r1''],
      userSockets = [''u-x1'' \<mapsto> ''x1'', ''u-r1'' \<mapsto> ''r1''],
      roomMembers = [],
      adviceQueue = \<lparr>beginner = [],
                     intermediate = [ex_entry ''x1'' Intermediate None 1100],
                     advanced = []\<rparr>,
      activeAdviceSessions = []\<rparr>"

text \<open>
  A session between \<open>A\<close> and \<open>B\<close>, ended by \<open>A\<close> at 1600, with one message; \<open>Z\<close> is
  authenticated and takes no part in it.
\<close>

definition ex_session :: session where
  "ex_session =
     \<lparr>s_sessionId = ''advice_1500_abc'',
      user1 = \<lparr>socketId = ''A'', userId = ''u-A'', username = ''A'', level = Beginner\<rparr>,
      user2 = \<lparr>socketId = ''B'', userId = ''u-B'', username = ''B'', level = Intermediate\<rparr>,
      s_topic = Some ''Fish'',
      createdAt = 1500,
      messages = [\<lparr>m_id = ''advice_msg_1550_xyz'', m_sessionId = ''advice_1500_abc'',
                    m_userId = ''u-A'', m_username = ''A'', m_message = ''hello'',
                    m_photo = None, m_timestamp = 1550\<rparr>],
      ended = False,
      endedAt = None,
      endedBy = None,
      feedback = empty_object\<rparr>"

definition ex_session_ended :: session where
  "ex_session_ended = ex_session\<lparr>ended := True, endedAt := Some 1600, endedBy := Some ''A''\<rparr>"

definition ex_state_ended :: state where
  "ex_state_ended =
     \<lparr>activeUsers = [''A'' \<mapsto> ex_info ''A'', ''B'' \<mapsto> ex_info ''B'', ''Z'' \<mapsto> ex_info ''Z''],
      userSockets = [''u-A'' \<mapsto> ''A'', ''u-B'' \<mapsto> ''B'', ''u-Z'' \<mapsto> ''Z''],
      roomMembers = [],
      adviceQueue = \<lparr>beginner = [], intermediate = [], advanced = []\<rparr>,
      activeAdviceSessions = [(''advice_1500_abc'', ex_session_ended)]\<rparr>"

text \<open>
  \<open>A\<close> and \<open>B\<close> are in a running session and in the room Reef; \<open>A\<close> also waits in the
  Beginner queue.
\<close>

definition ex_state_live :: state where
  "ex_state_live =
     \<lparr>activeUsers = [''A'' \<mapsto> ex_info ''A'', ''B'' \<mapsto> ex_info ''B''],
      userSockets = [''u-A'' \<mapsto> ''A'', ''u-B'' \<mapsto> ''B''],
      roomMembers = [(''Reef'', {''A'', ''B''})],
      adviceQueue = \<lparr>beginner = [ex_entry ''A'' Beginner None 1650],
                     intermediate = [], advanced = []\<rparr>,
      activeAdviceSessions = [(''advice_1500_abc'', ex_session)]\<rparr>"

text \<open>An \<open>authenticate\<close> payload that carries a user id and a user name.\<close>

definition ex_ud_id :: "string \<Rightarrow> string \<Rightarrow> userData" where
  "ex_ud_id uid n = (ex_ud n)\<lparr>ud_userId := Some uid\<rparr>"

text \<open>
  A run in which the connection \<open>A\<close> authenticates as the user \<open>u1\<close>, authenticates
  again as the user \<open>u2\<close>, and disconnects.
\<close>

definition ex_run_reauth :: "(env \<times> socketId \<times> event) list" where
  "ex_run_reauth =
     [(ex_env, ''A'', Authenticate (ex_ud_id ''u1'' ''A'')),
      (ex_env, ''A'', Authenticate (ex_ud_id ''u2'' ''A'')),
      (ex_env_later, ''A'', Disconnect)]"

text \<open>
  A run in which \<open>A\<close> authenticates, \<open>B\<close> authenticates with the user id \<open>__proto__\<close>,
  \<open>A\<close> joins as Beginner and \<open>B\<close> joins as Advanced and is matched with \<open>A\<close>; and the
  session that the run leaves in the store.
\<close>

definition ex_run_proto :: "(env \<times> socketId \<times> event) list" where
  "ex_run_proto =
     [(ex_env, ''A'', Authenticate (ex_ud ''A'')),
      (ex_env, ''B'', Authenticate (ex_ud_id ''__proto__'' ''B'')),
      (ex_env, ''A'', JoinAdviceQueue ''Beginner'' None),
      (ex_env, ''B'', JoinAdviceQueue ''Advanced'' None)]"

definition ex_session_proto :: session where
  "ex_session_proto =
     \<lparr>s_sessionId = ''advice_1700_k3x9q2m1z'',
      user1 = \<lparr>socketId = ''B'', userId = ''__proto__'', username = ''B'', level = Advanced\<rparr>,
      user2 = \<lparr>socketId = ''A'', userId = ''A'', username = ''A'', level = Beginner\<rparr>,
      s_topic = None, createdAt = 1700, messages = [], ended = False,
      endedAt = None, endedBy = None, feedback = empty_object\<rparr>"

section \<open>Properties of the matcher\<close>

lemma candidates_for_table:
  "candidates_for l q =
     (case first_nonempty_pool (spec_search_order l) q of None \<Rightarrow> [] | Some pool \<Rightarrow> pool)"
  by (cases l)
    (simp_all add: candidates_for_def first_nonempty_pool_def spec_search_order_def queue_of_def)

lemma first_nonempty_pool_nonempty:
  "first_nonempty_pool ls q = Some pool \<Longrightarrow> pool \<noteq> []"
  by (auto simp: first_nonempty_pool_def dest: find_Some_iff[THEN iffD1])

lemma findMatch_in_candidates:
  "findMatch l tp q = Some m \<Longrightarrow> m \<in> set (candidates_for l q)"
  by (auto simp: findMatch_def Let_def find_Some_iff split: option.splits if_splits list.splits)

lemma findMatch_None_iff: "findMatch l tp q = None \<longleftrightarrow> candidates_for l q = []"
  by (auto simp: findMatch_def Let_def split: option.splits list.splits)

lemma findMatch_head:
  "\<not> truthy tp \<Longrightarrow> candidates_for l q = c # cs \<Longrightarrow> findMatch l tp q = Some c"
  by (simp add: findMatch_def)

lemma findMatch_table:
  "case first_nonempty_pool (spec_search_order l) q of
     None \<Rightarrow> findMatch l tp q = None
   | Some pool \<Rightarrow> (\<exists>m \<in> set pool. findMatch l tp q = Some m)"
proof (cases "first_nonempty_pool (spec_search_order l) q")
  case None
  then show ?thesis by (simp add: findMatch_None_iff candidates_for_table)
next
  case (Some pool)
  then have c: "candidates_for l q = pool" by (simp add: candidates_for_table)
  have "pool \<noteq> []" using Some by (rule first_nonempty_pool_nonempty)
  then obtain m where m: "findMatch l tp q = Some m"
    using c findMatch_None_iff[of l tp q] by (cases "findMatch l tp q") auto
  then have "m \<in> set pool" using findMatch_in_candidates c by blast
  with m Some show ?thesis by simp
qed

subsection \<open>Queue bookkeeping\<close>

lemma find_append_if:
  "find P (xs @ ys) = (case find P xs of None \<Rightarrow> find P ys | Some x \<Rightarrow> Some x)"
  by (induction xs) simp_all

lemma find_filter_not: "find (\<lambda>u. f u = c) (filter (\<lambda>u. f u \<noteq> c) xs) = None"
  by (simp add: find_None_iff)

lemma find_own_entry:
  "socketId x = sid \<Longrightarrow>
   find (\<lambda>u. socketId u = sid) (queue_of l (queue_push l x (removeFromQueue sid q))) = Some x"
  by (cases l)
    (simp_all add: queue_of_def queue_push_def removeFromQueue_def find_append_if find_filter_not)

lemma socketId_new_entry [simp]: "socketId (new_entry e sid info l tp) = sid"
  by (simp add: new_entry_def)

lemma all_entries_removeFromQueue:
  "all_entries (removeFromQueue sid q) = filter (\<lambda>u. socketId u \<noteq> sid) (all_entries q)"
  by (simp add: all_entries_def removeFromQueue_def)

lemma set_all_entries_queue_push:
  "set (all_entries (queue_push l x q)) = insert x (set (all_entries q))"
  by (cases l) (auto simp: all_entries_def queue_push_def)

lemma attemptMatch_matched:
  assumes "find (\<lambda>u. socketId u = sid) (queue_of l (adviceQueue s)) = Some entry"
    and "findMatch l tp (adviceQueue s) = Some m" and "socketId m \<noteq> sid"
  shows "attemptMatch e sid l tp s =
     (s\<lparr>adviceQueue := removeFromQueue (socketId m) (removeFromQueue sid (adviceQueue s)),
        activeAdviceSessions :=
          AList.update (generateSessionId e) (new_session e sid entry m tp)
            (activeAdviceSessions s)\<rparr>,
      [(ToSocket sid,
        Matched (generateSessionId e) (username m) (level m) (s_topic (new_session e sid entry m tp))),
       (ToSocket (socketId m),
        Matched (generateSessionId e) (username entry) (level entry)
          (s_topic (new_session e sid entry m tp)))])"
  using assms by (simp add: attemptMatch_def Let_def)

lemma attemptMatch_unmatched:
  assumes "findMatch l tp (adviceQueue s) = None \<or>
           (\<exists>m. findMatch l tp (adviceQueue s) = Some m \<and> socketId m = sid)"
  shows "attemptMatch e sid l tp s = (s, [])"
  using assms by (auto simp: attemptMatch_def Let_def split: option.splits)

lemma join_advice_queue_queued:
  assumes "activeUsers s sid = Some info" and "parse_level lvl = Some l"
  shows "join_advice_queue e sid lvl tp s =
     (fst (attemptMatch e sid l tp (queued_state e sid info l tp s)),
      (ToSocket sid, Queued l tp (length (queue_of l (adviceQueue (queued_state e sid info l tp s)))))
      # snd (attemptMatch e sid l tp (queued_state e sid info l tp s)))"
  using assms by (simp add: join_advice_queue_def queued_state_def Let_def)

lemma find_own_queued:
  "find (\<lambda>u. socketId u = sid) (queue_of l (adviceQueue (queued_state e sid info l tp s)))
     = Some (new_entry e sid info l tp)"
  by (simp add: queued_state_def find_own_entry)

lemma parse_level_simps [simp]:
  "parse_level ''Beginner'' = Some Beginner"
  "parse_level ''Intermediate'' = Some Intermediate"
  "parse_level ''Advanced'' = Some Advanced"
  by (simp_all add: parse_level_def)

lemma candidates_for_subset: "set (candidates_for l q) \<subseteq> set (all_entries q)"
  by (cases l) (auto simp: candidates_for_def all_entries_def)

lemma findMatch_in_queue: "findMatch l tp q = Some m \<Longrightarrow> m \<in> set (all_entries q)"
  using findMatch_in_candidates candidates_for_subset by blast

lemma all_entries_queued_state:
  "set (all_entries (adviceQueue (queued_state e sid info l tp s))) =
     insert (new_entry e sid info l tp) {u \<in> set (all_entries (adviceQueue s)). socketId u \<noteq> sid}"
  by (auto simp: queued_state_def set_all_entries_queue_push all_entries_removeFromQueue)

lemma own_entries_queued_state:
  "filter (\<lambda>u. socketId u = sid) (all_entries (adviceQueue (queued_state e sid info l tp s)))
     = [new_entry e sid info l tp]"
proof -
  have "filter (\<lambda>u. socketId u = sid) (filter (\<lambda>u. socketId u \<noteq> sid) xs) = []" for xs :: "queueEntry list"
    by (simp add: filter_empty_conv)
  then show ?thesis
    by (cases l) (simp_all add: queued_state_def queue_push_def removeFromQueue_def all_entries_def)
qed

subsection \<open>The exclusivity invariant\<close>

lemma queue_exclusive_removeFromQueue:
  "queue_exclusive q \<Longrightarrow> queue_exclusive (removeFromQueue sid q)"
  by (simp add: queue_exclusive_def all_entries_removeFromQueue distinct_map_filter)

lemma queue_exclusive_push:
  assumes "queue_exclusive q" "socketId x \<notin> socketId ` set (all_entries q)"
  shows "queue_exclusive (queue_push l x q)"
  using assms by (cases l) (auto simp: queue_exclusive_def all_entries_def queue_push_def)

lemma queue_exclusive_queued_state:
  assumes "queue_exclusive (adviceQueue s)"
  shows "queue_exclusive (adviceQueue (queued_state e sid info l tp s))"
proof -
  have "queue_exclusive (queue_push l (new_entry e sid info l tp) (removeFromQueue sid (adviceQueue s)))"
  proof (rule queue_exclusive_push)
    show "queue_exclusive (removeFromQueue sid (adviceQueue s))"
      using assms by (rule queue_exclusive_removeFromQueue)
    show "socketId (new_entry e sid info l tp)
            \<notin> socketId ` set (all_entries (removeFromQueue sid (adviceQueue s)))"
      by (auto simp: all_entries_removeFromQueue)
  qed
  then show ?thesis by (simp add: queued_state_def)
qed

lemma adviceQueue_attemptMatch:
  "adviceQueue (fst (attemptMatch e sid l tp s)) = adviceQueue s \<or>
   (\<exists>m. adviceQueue (fst (attemptMatch e sid l tp s)) =
        removeFromQueue m (removeFromQueue sid (adviceQueue s)))"
  by (auto simp: attemptMatch_def Let_def split: option.splits)

lemma queue_exclusive_attemptMatch:
  "queue_exclusive (adviceQueue s) \<Longrightarrow>
   queue_exclusive (adviceQueue (fst (attemptMatch e sid l tp s)))"
  using adviceQueue_attemptMatch[of e sid l tp s]
  by (auto simp: queue_exclusive_removeFromQueue)

lemma queue_exclusive_join:
  assumes "queue_exclusive (adviceQueue s)"
  shows "queue_exclusive (adviceQueue (fst (join_advice_queue e sid lvl tp s)))"
proof (cases "activeUsers s sid")
  case None
  then show ?thesis using assms by (simp add: join_advice_queue_def)
next
  case (Some info)
  show ?thesis
  proof (cases "parse_level lvl")
    case None
    then show ?thesis using assms Some by (simp add: join_advice_queue_def)
  next
    case (Some l)
    then show ?thesis
      using \<open>activeUsers s sid = Some info\<close> assms
      by (simp add: join_advice_queue_queued queue_exclusive_attemptMatch
          queue_exclusive_queued_state)
  qed
qed

lemma queue_exclusive_handle:
  assumes "queue_exclusive (adviceQueue s)"
  shows "queue_exclusive (adviceQueue (fst (handle e sid ev s)))"
proof (cases ev)
  case (JoinAdviceQueue l tp)
  then show ?thesis using assms by (simp add: queue_exclusive_join)
next
  case LeaveAdviceQueue
  then show ?thesis
    using assms by (simp add: leave_advice_queue_def queue_exclusive_removeFromQueue)
next
  case Disconnect
  then show ?thesis
    using assms
    by (simp add: disconnect_def Let_def queue_exclusive_removeFromQueue split: option.splits)
qed (use assms in \<open>auto simp: authenticate_def join_room_def leave_room_def
      advice_message_def end_advice_session_def submit_feedback_def Let_def
      split: option.splits\<close>)

lemma queue_exclusive_run:
  "queue_exclusive (adviceQueue s) \<Longrightarrow> queue_exclusive (adviceQueue (run evs s))"
  by (induction evs s rule: run.induct) (simp_all add: queue_exclusive_handle)

lemma queue_exclusive_init: "queue_exclusive (adviceQueue init_state)"
  by (simp add: init_state_def queue_exclusive_def all_entries_def)

lemma distinct_map_count:
  "distinct (map f xs) \<Longrightarrow> length (filter (\<lambda>x. f x = c) xs) \<le> 1"
proof (induction xs)
  case Nil
  then show ?case by simp
next
  case (Cons a xs)
  show ?case
  proof (cases "f a = c")
    case True
    with Cons.prems have "filter (\<lambda>x. f x = c) xs = []"
      by (fastforce simp: filter_empty_conv image_iff)
    with True show ?thesis by simp
  next
    case False
    with Cons show ?thesis by simp
  qed
qed

section \<open>Level preference and FIFO order\<close>

lemma queues_queued_state:
  "beginner (adviceQueue (queued_state e c info l tp s)) =
     filter (\<lambda>u. socketId u \<noteq> c) (beginner (adviceQueue s)) @
       (if l = Beginner then [new_entry e c info l tp] else [])"
  "intermediate (adviceQueue (queued_state e c info l tp s)) =
     filter (\<lambda>u. socketId u \<noteq> c) (intermediate (adviceQueue s)) @
       (if l = Intermediate then [new_entry e c info l tp] else [])"
  "advanced (adviceQueue (queued_state e c info l tp s)) =
     filter (\<lambda>u. socketId u \<noteq> c) (advanced (adviceQueue s)) @
       (if l = Advanced then [new_entry e c info l tp] else [])"
  by (cases l; simp add: queued_state_def queue_push_def removeFromQueue_def)+

lemma join_advice_queue_matched:
  assumes "activeUsers s c = Some info" and "parse_level lvl = Some l"
    and "findMatch l tp (adviceQueue (queued_state e c info l tp s)) = Some m"
    and "socketId m \<noteq> c"
  shows "fst (join_advice_queue e c lvl tp s) =
     (queued_state e c info l tp s)
       \<lparr>adviceQueue := removeFromQueue (socketId m)
            (removeFromQueue c (adviceQueue (queued_state e c info l tp s))),
        activeAdviceSessions :=
          AList.update (generateSessionId e) (new_session e c (new_entry e c info l tp) m tp)
            (activeAdviceSessions s)\<rparr>"
    and "snd (join_advice_queue e c lvl tp s) =
      [(ToSocket c, Queued l tp (length (queue_of l (adviceQueue (queued_state e c info l tp s))))),
       (ToSocket c, Matched (generateSessionId e) (username m) (level m)
          (s_topic (new_session e c (new_entry e c info l tp) m tp))),
       (ToSocket (socketId m), Matched (generateSessionId e)
          (username (new_entry e c info l tp)) (level (new_entry e c info l tp))
          (s_topic (new_session e c (new_entry e c info l tp) m tp)))]"
proof -
  have sessions: "activeAdviceSessions (queued_state e c info l tp s) = activeAdviceSessions s"
    by (simp add: queued_state_def)
  have am: "attemptMatch e c l tp (queued_state e c info l tp s) =
     ((queued_state e c info l tp s)
       \<lparr>adviceQueue := removeFromQueue (socketId m)
            (removeFromQueue c (adviceQueue (queued_state e c info l tp s))),
        activeAdviceSessions :=
          AList.update (generateSessionId e) (new_session e c (new_entry e c info l tp) m tp)
            (activeAdviceSessions s)\<rparr>,
      [(ToSocket c, Matched (generateSessionId e) (username m) (level m)
          (s_topic (new_session e c (new_entry e c info l tp) m tp))),
       (ToSocket (socketId m), Matched (generateSessionId e)
          (username (new_entry e c info l tp)) (level (new_entry e c info l tp))
          (s_topic (new_session e c (new_entry e c info l tp) m tp)))])"
    using attemptMatch_matched[OF find_own_queued assms(3,4), of e] by (simp only: sessions)
  show "fst (join_advice_queue e c lvl tp s) =
     (queued_state e c info l tp s)
       \<lparr>adviceQueue := removeFromQueue (socketId m)
            (removeFromQueue c (adviceQueue (queued_state e c info l tp s))),
        activeAdviceSessions :=
          AList.update (generateSessionId e) (new_session e c (new_entry e c info l tp) m tp)
            (activeAdviceSessions s)\<rparr>"
    by (simp only: join_advice_queue_queued[OF assms(1,2)] am fst_conv)
  show "snd (join_advice_queue e c lvl tp s) =
      [(ToSocket c, Queued l tp (length (queue_of l (adviceQueue (queued_state e c info l tp s))))),
       (ToSocket c, Matched (generateSessionId e) (username m) (level m)
          (s_topic (new_session e c (new_entry e c info l tp) m tp))),
       (ToSocket (socketId m), Matched (generateSessionId e)
          (username (new_entry e c info l tp)) (level (new_entry e c info l tp))
          (s_topic (new_session e c (new_entry e c info l tp) m tp)))]"
    by (simp only: join_advice_queue_queued[OF assms(1,2)] am snd_conv)
qed

lemma join_session_stored:
  assumes "activeUsers s c = Some info" and "parse_level lvl = Some l"
    and "findMatch l tp (adviceQueue (queued_state e c info l tp s)) = Some m"
    and "socketId m \<noteq> c"
  shows "map_of (activeAdviceSessions (fst (join_advice_queue e c lvl tp s))) (generateSessionId e)
           = Some (new_session e c (new_entry e c info l tp) m tp)"
  by (simp add: join_advice_queue_matched(1)[OF assms] update_conv')

text \<open>
  Claim C1. For every requester level, \<open>findMatch\<close> takes its result from the first
  non-empty pool in the order of the preference table, and returns nothing when every
  pool of the table is empty. A Beginner requester is served from the Intermediate pool
  whenever that pool and the Advanced pool are non-empty; and when an authenticated
  connection joins as Beginner while another connection waits in the Intermediate
  queue, the session that is created pairs it with an entry of the Intermediate queue.
\<close>

theorem C1_level_preference_order:
  "(case first_nonempty_pool (spec_search_order l) q of
      None \<Rightarrow> findMatch l tp q = None
    | Some pool \<Rightarrow> (\<exists>m \<in> set pool. findMatch l tp q = Some m))
   \<and> (intermediate q \<noteq> [] \<and> advanced q \<noteq> [] \<longrightarrow>
        (\<exists>m \<in> set (intermediate q). findMatch Beginner tp q = Some m))
   \<and> (activeUsers s c = Some info \<and> (\<exists>u \<in> set (intermediate (adviceQueue s)). socketId u \<noteq> c) \<longrightarrow>
        (\<exists>m \<in> set (intermediate (adviceQueue s)). socketId m \<noteq> c \<and>
           map_of (activeAdviceSessions (fst (join_advice_queue e c ''Beginner'' tp s)))
             (generateSessionId e)
           = Some (new_session e c (new_entry e c info Beginner tp) m tp)))"
proof (intro conjI impI)
  show "case first_nonempty_pool (spec_search_order l) q of
      None \<Rightarrow> findMatch l tp q = None
    | Some pool \<Rightarrow> (\<exists>m \<in> set pool. findMatch l tp q = Some m)"
    by (rule findMatch_table)
next
  assume "intermediate q \<noteq> [] \<and> advanced q \<noteq> []"
  then have "first_nonempty_pool (spec_search_order Beginner) q = Some (intermediate q)"
    by (simp add: first_nonempty_pool_def spec_search_order_def queue_of_def)
  then show "\<exists>m \<in> set (intermediate q). findMatch Beginner tp q = Some m"
    using findMatch_table[where l = Beginner and q = q and tp = tp] by simp
next
  assume a: "activeUsers s c = Some info \<and> (\<exists>u \<in> set (intermediate (adviceQueue s)). socketId u \<noteq> c)"
  let ?s2 = "queued_state e c info Beginner tp s"
  have pool: "intermediate (adviceQueue ?s2) = filter (\<lambda>u. socketId u \<noteq> c) (intermediate (adviceQueue s))"
    by (simp add: queues_queued_state)
  moreover have "filter (\<lambda>u. socketId u \<noteq> c) (intermediate (adviceQueue s)) \<noteq> []"
    using a by (auto simp: filter_empty_conv)
  ultimately have "first_nonempty_pool (spec_search_order Beginner) (adviceQueue ?s2)
      = Some (filter (\<lambda>u. socketId u \<noteq> c) (intermediate (adviceQueue s)))"
    by (simp add: first_nonempty_pool_def spec_search_order_def queue_of_def)
  then obtain m where m: "m \<in> set (filter (\<lambda>u. socketId u \<noteq> c) (intermediate (adviceQueue s)))"
      "findMatch Beginner tp (adviceQueue ?s2) = Some m"
    using findMatch_table[where l = Beginner and q = "adviceQueue ?s2" and tp = tp] by auto
  then have "socketId m \<noteq> c" "m \<in> set (intermediate (adviceQueue s))" by auto
  moreover have "map_of (activeAdviceSessions (fst (join_advice_queue e c ''Beginner'' tp s)))
             (generateSessionId e)
           = Some (new_session e c (new_entry e c info Beginner tp) m tp)"
    using a m(2) \<open>socketId m \<noteq> c\<close> by (intro join_session_stored) simp_all
  ultimately show "\<exists>m \<in> set (intermediate (adviceQueue s)). socketId m \<noteq> c \<and>
           map_of (activeAdviceSessions (fst (join_advice_queue e c ''Beginner'' tp s)))
             (generateSessionId e)
           = Some (new_session e c (new_entry e c info Beginner tp) m tp)"
    by blast
qed

theorem C1_level_preference_order_witness:
  "intermediate ex_queue_ia \<noteq> [] \<and> advanced ex_queue_ia \<noteq> []
   \<and> activeUsers ex_state_ia ''b1'' = Some (ex_info ''b1'')
   \<and> (\<exists>u \<in> set (intermediate (adviceQueue ex_state_ia)). socketId u \<noteq> ''b1'')
   \<and> findMatch Beginner None ex_queue_ia = Some (ex_entry ''i1'' Intermediate None 1200)
   \<and> map_of (activeAdviceSessions (fst (join_advice_queue ex_env ''b1'' ''Beginner'' None ex_state_ia)))
        (generateSessionId ex_env)
      = Some (new_session ex_env ''b1'' (new_entry ex_env ''b1'' (ex_info ''b1'') Beginner None)
                (ex_entry ''i1'' Intermediate None 1200) None)"
  using C1_level_preference_order[where l = Beginner and q = ex_queue_ia and tp = None
      and s = ex_state_ia and c = "''b1''" and info = "ex_info ''b1''" and e = ex_env]
  by (simp add: ex_queue_ia_def ex_state_ia_def ex_entry_def)

text \<open>
  Claim C2. With an empty Beginner queue and the Intermediate queue \<open>a # rest\<close> (the
  claim's \<open>[A, B]\<close>), an Advanced requester without a topic is given the head \<open>a\<close>; and
  when an authenticated connection other than the queued ones joins as Advanced without
  a topic, the handler notifies it and \<open>a\<close> of their match and stores their session.
\<close>

theorem C2_fifo_head:
  assumes "\<not> truthy tp"
  shows "findMatch Advanced tp \<lparr>beginner = [], intermediate = a # rest, advanced = adv\<rparr> = Some a
    \<and> (activeUsers s c = Some info
        \<and> adviceQueue s = \<lparr>beginner = [], intermediate = a # rest, advanced = adv\<rparr>
        \<and> c \<notin> socketId ` set (a # rest) \<longrightarrow>
          snd (join_advice_queue e c ''Advanced'' tp s) =
            [(ToSocket c, Queued Advanced tp (Suc (length (filter (\<lambda>u. socketId u \<noteq> c) adv)))),
             (ToSocket c, Matched (generateSessionId e) (username a) (level a)
                (js_or tp (js_or (topic a) None))),
             (ToSocket (socketId a), Matched (generateSessionId e) (u_username info) Advanced
                (js_or tp (js_or (topic a) None)))]
          \<and> map_of (activeAdviceSessions (fst (join_advice_queue e c ''Advanced'' tp s)))
               (generateSessionId e)
             = Some (new_session e c (new_entry e c info Advanced tp) a tp))"
proof (intro conjI impI)
  show "findMatch Advanced tp \<lparr>beginner = [], intermediate = a # rest, advanced = adv\<rparr> = Some a"
    using assms by (simp add: findMatch_head candidates_for_def)
next
  assume h: "activeUsers s c = Some info
        \<and> adviceQueue s = \<lparr>beginner = [], intermediate = a # rest, advanced = adv\<rparr>
        \<and> c \<notin> socketId ` set (a # rest)"
  let ?s2 = "queued_state e c info Advanced tp s"
  have keep: "filter (\<lambda>u. socketId u \<noteq> c) (a # rest) = a # rest"
    using h by (auto simp: filter_id_conv)
  have q2: "beginner (adviceQueue ?s2) = []" "intermediate (adviceQueue ?s2) = a # rest"
    "advanced (adviceQueue ?s2) = filter (\<lambda>u. socketId u \<noteq> c) adv @ [new_entry e c info Advanced tp]"
    using h keep by (simp_all add: queues_queued_state)
  have fm: "findMatch Advanced tp (adviceQueue ?s2) = Some a"
    using assms q2 by (simp add: findMatch_head candidates_for_def)
  have ne: "socketId a \<noteq> c" using h by auto
  have auth: "activeUsers s c = Some info" using h by simp
  show "snd (join_advice_queue e c ''Advanced'' tp s) =
            [(ToSocket c, Queued Advanced tp (Suc (length (filter (\<lambda>u. socketId u \<noteq> c) adv)))),
             (ToSocket c, Matched (generateSessionId e) (username a) (level a)
                (js_or tp (js_or (topic a) None))),
             (ToSocket (socketId a), Matched (generateSessionId e) (u_username info) Advanced
                (js_or tp (js_or (topic a) None)))]"
    using join_advice_queue_matched(2)[OF auth parse_level_simps(3) fm ne] q2
    by (simp add: queue_of_def new_session_def new_entry_def)
  show "map_of (activeAdviceSessions (fst (join_advice_queue e c ''Advanced'' tp s)))
               (generateSessionId e)
             = Some (new_session e c (new_entry e c info Advanced tp) a tp)"
    using join_session_stored[OF auth parse_level_simps(3) fm ne] .
qed

theorem C2_fifo_head_witness:
  "\<not> truthy None
   \<and> activeUsers ex_state_ab ''c1'' = Some (ex_info ''c1'')
   \<and> ''c1'' \<notin> socketId ` set [ex_entry ''A'' Intermediate None 1100, ex_entry ''B'' Intermediate None 1200]
   \<and> findMatch Advanced None (adviceQueue ex_state_ab) = Some (ex_entry ''A'' Intermediate None 1100)
   \<and> snd (join_advice_queue ex_env ''c1'' ''Advanced'' None ex_state_ab) =
        [(ToSocket ''c1'', Queued Advanced None 1),
         (ToSocket ''c1'', Matched (generateSessionId ex_env) ''A'' Intermediate None),
         (ToSocket ''A'', Matched (generateSessionId ex_env) ''c1'' Advanced None)]"
  using C2_fifo_head[where tp = None and a = "ex_entry ''A'' Intermediate None 1100"
      and rest = "[ex_entry ''B'' Intermediate None 1200]" and adv = "[]"
      and s = ex_state_ab and c = "''c1''" and info = "ex_info ''c1''" and e = ex_env]
  by (simp add: ex_state_ab_def ex_entry_def ex_info_def truthy_def js_or_def)

section \<open>Queue exclusivity\<close>

lemma own_entries_attemptMatch:
  assumes "filter (\<lambda>u. socketId u = c) (all_entries (adviceQueue s)) = [x]"
  shows "filter (\<lambda>u. socketId u = c) (all_entries (adviceQueue (fst (attemptMatch e c l tp s))))
           = (if snd (attemptMatch e c l tp s) = [] then [x] else [])"
proof -
  show ?thesis
    using assms
    by (auto simp: attemptMatch_def Let_def all_entries_removeFromQueue filter_empty_conv
        split: option.splits)
qed

text \<open>
  Claim C3. In every state reached from the initial one by any sequence of events, each
  connection has at most one entry in the three queues taken together. A join by an
  authenticated connection with a valid level leaves at most one entry of that
  connection in the queues, every such entry is the one just built from the new level and
  topic, and it is there whenever the join produced no match.
\<close>

theorem C3_queue_exclusivity:
  "(\<forall>c. length (filter (\<lambda>u. socketId u = c) (all_entries (adviceQueue (run evs init_state)))) \<le> 1)
   \<and> (activeUsers s c = Some info \<and> parse_level lvl = Some l \<longrightarrow>
        length (filter (\<lambda>u. socketId u = c)
          (all_entries (adviceQueue (fst (join_advice_queue e c lvl tp s))))) \<le> 1
        \<and> (\<forall>u \<in> set (all_entries (adviceQueue (fst (join_advice_queue e c lvl tp s)))).
              socketId u = c \<longrightarrow> u = new_entry e c info l tp)
        \<and> (length (snd (join_advice_queue e c lvl tp s)) = 1 \<longrightarrow>
              filter (\<lambda>u. socketId u = c)
                (all_entries (adviceQueue (fst (join_advice_queue e c lvl tp s))))
              = [new_entry e c info l tp]))"
proof (intro conjI impI allI)
  fix c'
  have "queue_exclusive (adviceQueue (run evs init_state))"
    using queue_exclusive_init by (rule queue_exclusive_run)
  then show "length (filter (\<lambda>u. socketId u = c') (all_entries (adviceQueue (run evs init_state)))) \<le> 1"
    unfolding queue_exclusive_def by (rule distinct_map_count)
next
  assume h: "activeUsers s c = Some info \<and> parse_level lvl = Some l"
  let ?s2 = "queued_state e c info l tp s"
  let ?own = "filter (\<lambda>u. socketId u = c)
          (all_entries (adviceQueue (fst (join_advice_queue e c lvl tp s))))"
  have j: "join_advice_queue e c lvl tp s =
     (fst (attemptMatch e c l tp ?s2),
      (ToSocket c, Queued l tp (length (queue_of l (adviceQueue ?s2))))
      # snd (attemptMatch e c l tp ?s2))"
    using h by (simp add: join_advice_queue_queued)
  have am: "filter (\<lambda>u. socketId u = c)
               (all_entries (adviceQueue (fst (attemptMatch e c l tp ?s2))))
             = (if snd (attemptMatch e c l tp ?s2) = [] then [new_entry e c info l tp] else [])"
    by (rule own_entries_attemptMatch[OF own_entries_queued_state])
  have own: "?own = (if snd (attemptMatch e c l tp ?s2) = [] then [new_entry e c info l tp] else [])"
    by (simp add: j am)
  show "length ?own \<le> 1" by (simp add: own)
  show "\<forall>u \<in> set (all_entries (adviceQueue (fst (join_advice_queue e c lvl tp s)))).
              socketId u = c \<longrightarrow> u = new_entry e c info l tp"
  proof (intro ballI impI)
    fix u
    assume "u \<in> set (all_entries (adviceQueue (fst (join_advice_queue e c lvl tp s))))"
      and "socketId u = c"
    then have "u \<in> set ?own" by simp
    then show "u = new_entry e c info l tp" by (simp add: own split: if_splits)
  qed
  show "?own = [new_entry e c info l tp]"
    if "length (snd (join_advice_queue e c lvl tp s)) = 1"
    using that by (simp add: j am)
qed

theorem C3_queue_exclusivity_witness:
  "activeUsers ex_state_rejoin ''c1'' = Some (ex_info ''c1'')
   \<and> parse_level ''Intermediate'' = Some Intermediate
   \<and> length (snd (join_advice_queue ex_env ''c1'' ''Intermediate'' (Some ''Fish'') ex_state_rejoin)) = 1
   \<and> filter (\<lambda>u. socketId u = ''c1'')
        (all_entries (adviceQueue (fst (join_advice_queue ex_env ''c1'' ''Intermediate'' (Some ''Fish'')
           ex_state_rejoin))))
      = [new_entry ex_env ''c1'' (ex_info ''c1'') Intermediate (Some ''Fish'')]
   \<and> length (filter (\<lambda>u. socketId u = ''A'') (all_entries (adviceQueue (run ex_run init_state)))) \<le> 1"
proof -
  have auth: "activeUsers ex_state_rejoin ''c1'' = Some (ex_info ''c1'')"
    by (simp add: ex_state_rejoin_def)
  have one: "length (snd (join_advice_queue ex_env ''c1'' ''Intermediate'' (Some ''Fish'') ex_state_rejoin)) = 1"
    by (simp add: join_advice_queue_def attemptMatch_def findMatch_def candidates_for_def
        queue_push_def queue_of_def removeFromQueue_def new_entry_def ex_state_rejoin_def
        ex_entry_def truthy_def js_or_def Let_def)
  show ?thesis
    using C3_queue_exclusivity[where evs = ex_run and s = ex_state_rejoin and c = "''c1''"
        and info = "ex_info ''c1''" and lvl = "''Intermediate''" and l = Intermediate
        and e = ex_env and tp = "Some ''Fish''"] auth one
    by simp
qed

section \<open>Removal on match\<close>

lemma set_update_subset: "set (AList.update k v al) \<subseteq> insert (k, v) (set al)"
  by (induction al) auto

lemma attemptMatch_targets:
  assumes "x \<in> set (snd (attemptMatch e c l tp s))"
  shows "fst x = ToSocket c \<or>
         (\<exists>u \<in> set (all_entries (adviceQueue s)). socketId u \<noteq> c \<and> fst x = ToSocket (socketId u))"
  using assms
  by (auto simp: attemptMatch_def Let_def dest: findMatch_in_queue split: option.splits if_splits)

lemma attemptMatch_sessions:
  assumes "p \<in> set (activeAdviceSessions (fst (attemptMatch e c l tp s)))"
  shows "p \<in> set (activeAdviceSessions s) \<or>
         (socketId (user1 (snd p)) = c \<and>
          (\<exists>u \<in> set (all_entries (adviceQueue s)).
              socketId u \<noteq> c \<and> socketId (user2 (snd p)) = socketId u))"
proof (cases "snd (attemptMatch e c l tp s) = []")
  case True
  then have "fst (attemptMatch e c l tp s) = s"
    by (auto simp: attemptMatch_def Let_def split: option.splits if_splits)
  with assms show ?thesis by simp
next
  case False
  then obtain entry m where m: "findMatch l tp (adviceQueue s) = Some m" "socketId m \<noteq> c"
    and st: "activeAdviceSessions (fst (attemptMatch e c l tp s)) =
      AList.update (generateSessionId e) (new_session e c entry m tp) (activeAdviceSessions s)"
    by (auto simp: attemptMatch_def Let_def split: option.splits if_splits)
  from assms st have "p = (generateSessionId e, new_session e c entry m tp) \<or>
      p \<in> set (activeAdviceSessions s)"
    using set_update_subset by fastforce
  then show ?thesis
  proof
    assume "p = (generateSessionId e, new_session e c entry m tp)"
    then have "socketId (user1 (snd p)) = c" "socketId (user2 (snd p)) = socketId m"
      by (simp_all add: new_session_def participant_of_def)
    moreover have "m \<in> set (all_entries (adviceQueue s))" using m(1) by (rule findMatch_in_queue)
    ultimately show ?thesis using m(2) by blast
  qed simp
qed

lemma join_advice_queue_targets:
  assumes "x \<in> set (snd (join_advice_queue e c lvl tp s))"
  shows "fst x = ToSocket c \<or>
         (\<exists>u \<in> set (all_entries (adviceQueue s)). socketId u \<noteq> c \<and> fst x = ToSocket (socketId u))"
proof (cases "activeUsers s c")
  case None
  with assms show ?thesis by (simp add: join_advice_queue_def)
next
  case (Some info)
  show ?thesis
  proof (cases "parse_level lvl")
    case None
    with assms Some show ?thesis by (simp add: join_advice_queue_def)
  next
    case (Some l)
    with assms \<open>activeUsers s c = Some info\<close>
    have "fst x = ToSocket c \<or> x \<in> set (snd (attemptMatch e c l tp (queued_state e c info l tp s)))"
      by (auto simp: join_advice_queue_queued)
    then show ?thesis
      using attemptMatch_targets[of x e c l tp "queued_state e c info l tp s"]
      by (auto simp: all_entries_queued_state)
  qed
qed

lemma sessions_queued_state:
  "activeAdviceSessions (queued_state e c info l tp s) = activeAdviceSessions s"
  by (simp add: queued_state_def)

lemma join_advice_queue_sessions:
  assumes "p \<in> set (activeAdviceSessions (fst (join_advice_queue e c lvl tp s)))"
  shows "p \<in> set (activeAdviceSessions s) \<or>
         (socketId (user1 (snd p)) = c \<and>
          (\<exists>u \<in> set (all_entries (adviceQueue s)).
              socketId u \<noteq> c \<and> socketId (user2 (snd p)) = socketId u))"
proof (cases "activeUsers s c")
  case None
  with assms show ?thesis by (simp add: join_advice_queue_def)
next
  case (Some info)
  show ?thesis
  proof (cases "parse_level lvl")
    case None
    with assms Some show ?thesis by (simp add: join_advice_queue_def)
  next
    case (Some l)
    with assms \<open>activeUsers s c = Some info\<close>
    have "p \<in> set (activeAdviceSessions (fst (attemptMatch e c l tp (queued_state e c info l tp s))))"
      by (simp add: join_advice_queue_queued)
    then show ?thesis
      using attemptMatch_sessions[of p e c l tp "queued_state e c info l tp s"]
      by (auto simp: all_entries_queued_state sessions_queued_state)
  qed
qed

text \<open>
  Claim C4. When \<open>attemptMatch\<close> pairs the caller \<open>a\<close> with the entry \<open>m\<close>, the resulting
  state has no queue entry of either connection and holds their session; and a
  following join by a third connection \<open>c\<close> emits nothing to either of them and adds no
  session that has one of them as the partner of \<open>c\<close>.
\<close>

theorem C4_atomic_removal:
  assumes "find (\<lambda>u. socketId u = a) (queue_of l (adviceQueue s)) = Some entry"
    and "findMatch l tp (adviceQueue s) = Some m"
    and "socketId m \<noteq> a"
  shows "(\<forall>u \<in> set (all_entries (adviceQueue (fst (attemptMatch e a l tp s)))).
            socketId u \<noteq> a \<and> socketId u \<noteq> socketId m)
    \<and> map_of (activeAdviceSessions (fst (attemptMatch e a l tp s))) (generateSessionId e)
        = Some (new_session e a entry m tp)
    \<and> (c \<noteq> a \<and> c \<noteq> socketId m \<longrightarrow>
         (\<forall>x \<in> set (snd (join_advice_queue e' c lvl' tp' (fst (attemptMatch e a l tp s)))).
             fst x \<noteq> ToSocket a \<and> fst x \<noteq> ToSocket (socketId m))
         \<and> (\<forall>p \<in> set (activeAdviceSessions
                         (fst (join_advice_queue e' c lvl' tp' (fst (attemptMatch e a l tp s))))).
               p \<in> set (activeAdviceSessions (fst (attemptMatch e a l tp s))) \<or>
               (socketId (user1 (snd p)) = c \<and> socketId (user2 (snd p)) \<noteq> a
                 \<and> socketId (user2 (snd p)) \<noteq> socketId m)))"
proof -
  let ?s' = "fst (attemptMatch e a l tp s)"
  have q': "adviceQueue ?s' = removeFromQueue (socketId m) (removeFromQueue a (adviceQueue s))"
    and sess: "activeAdviceSessions ?s' =
        AList.update (generateSessionId e) (new_session e a entry m tp) (activeAdviceSessions s)"
    by (simp_all add: attemptMatch_matched[OF assms])
  have gone: "\<forall>u \<in> set (all_entries (adviceQueue ?s')). socketId u \<noteq> a \<and> socketId u \<noteq> socketId m"
    by (simp add: q' all_entries_removeFromQueue)
  have stored: "map_of (activeAdviceSessions ?s') (generateSessionId e)
        = Some (new_session e a entry m tp)"
    by (simp add: sess update_conv')
  have third: "(\<forall>x \<in> set (snd (join_advice_queue e' c lvl' tp' ?s')).
             fst x \<noteq> ToSocket a \<and> fst x \<noteq> ToSocket (socketId m))
         \<and> (\<forall>p \<in> set (activeAdviceSessions (fst (join_advice_queue e' c lvl' tp' ?s'))).
               p \<in> set (activeAdviceSessions ?s') \<or>
               (socketId (user1 (snd p)) = c \<and> socketId (user2 (snd p)) \<noteq> a
                 \<and> socketId (user2 (snd p)) \<noteq> socketId m))"
    if c: "c \<noteq> a \<and> c \<noteq> socketId m"
  proof (intro conjI ballI)
    fix x assume "x \<in> set (snd (join_advice_queue e' c lvl' tp' ?s'))"
    from join_advice_queue_targets[OF this] gone c
    show "fst x \<noteq> ToSocket a" and "fst x \<noteq> ToSocket (socketId m)" by auto
  next
    fix p assume "p \<in> set (activeAdviceSessions (fst (join_advice_queue e' c lvl' tp' ?s')))"
    from join_advice_queue_sessions[OF this] gone
    show "p \<in> set (activeAdviceSessions ?s') \<or>
               (socketId (user1 (snd p)) = c \<and> socketId (user2 (snd p)) \<noteq> a
                 \<and> socketId (user2 (snd p)) \<noteq> socketId m)"
      by auto
  qed
  from gone stored third show ?thesis by blast
qed

theorem C4_atomic_removal_witness:
  "find (\<lambda>u. socketId u = ''c1'') (queue_of Advanced (adviceQueue ex_state_ab_queued))
     = Some (new_entry ex_env ''c1'' (ex_info ''c1'') Advanced None)
   \<and> findMatch Advanced None (adviceQueue ex_state_ab_queued)
     = Some (ex_entry ''A'' Intermediate None 1100)
   \<and> socketId (ex_entry ''A'' Intermediate None 1100) \<noteq> ''c1''
   \<and> ''B'' \<noteq> ''c1'' \<and> ''B'' \<noteq> socketId (ex_entry ''A'' Intermediate None 1100)
   \<and> map_of (activeAdviceSessions (fst (attemptMatch ex_env ''c1'' Advanced None ex_state_ab_queued)))
        (generateSessionId ex_env)
      = Some (new_session ex_env ''c1'' (new_entry ex_env ''c1'' (ex_info ''c1'') Advanced None)
                (ex_entry ''A'' Intermediate None 1100) None)
   \<and> all_entries (adviceQueue (fst (attemptMatch ex_env ''c1'' Advanced None ex_state_ab_queued)))
      = [ex_entry ''B'' Intermediate None 1200]
   \<and> snd (join_advice_queue ex_env_later ''B'' ''Advanced'' None
          (fst (attemptMatch ex_env ''c1'' Advanced None ex_state_ab_queued)))
      = [(ToSocket ''B'', Queued Advanced None 1)]"
proof -
  have own: "find (\<lambda>u. socketId u = ''c1'') (queue_of Advanced (adviceQueue ex_state_ab_queued))
     = Some (new_entry ex_env ''c1'' (ex_info ''c1'') Advanced None)"
    unfolding ex_state_ab_queued_def by (rule find_own_queued)
  have fm: "findMatch Advanced None (adviceQueue ex_state_ab_queued)
     = Some (ex_entry ''A'' Intermediate None 1100)"
    by (simp add: ex_state_ab_queued_def ex_state_ab_def queued_state_def queue_push_def
        removeFromQueue_def findMatch_def candidates_for_def truthy_def ex_entry_def)
  have ne: "socketId (ex_entry ''A'' Intermediate None 1100) \<noteq> ''c1''"
    by (simp add: ex_entry_def)
  have st: "fst (attemptMatch ex_env ''c1'' Advanced None ex_state_ab_queued) =
     ex_state_ab_queued\<lparr>adviceQueue :=
         removeFromQueue ''A'' (removeFromQueue ''c1'' (adviceQueue ex_state_ab_queued)),
       activeAdviceSessions :=
         AList.update (generateSessionId ex_env)
           (new_session ex_env ''c1'' (new_entry ex_env ''c1'' (ex_info ''c1'') Advanced None)
              (ex_entry ''A'' Intermediate None 1100) None)
           (activeAdviceSessions ex_state_ab_queued)\<rparr>"
    using attemptMatch_matched[OF own fm ne, of ex_env] by (simp add: ex_entry_def)
  have left: "all_entries (adviceQueue (fst (attemptMatch ex_env ''c1'' Advanced None ex_state_ab_queued)))
      = [ex_entry ''B'' Intermediate None 1200]"
    unfolding st
    by (simp add: all_entries_def ex_state_ab_queued_def ex_state_ab_def queued_state_def
        queue_push_def removeFromQueue_def new_entry_def ex_entry_def)
  have later: "snd (join_advice_queue ex_env_later ''B'' ''Advanced'' None
          (fst (attemptMatch ex_env ''c1'' Advanced None ex_state_ab_queued)))
      = [(ToSocket ''B'', Queued Advanced None 1)]"
    unfolding st
    by (simp add: join_advice_queue_def attemptMatch_def findMatch_def candidates_for_def
        queue_of_def ex_state_ab_queued_def ex_state_ab_def queued_state_def
        queue_push_def removeFromQueue_def new_entry_def ex_entry_def truthy_def Let_def)
  show ?thesis
    using C4_atomic_removal[OF own fm ne, where c = "''B''" and e = ex_env and e' = ex_env_later
        and lvl' = "''Advanced''" and tp' = None] own fm ne left later
    by (simp add: ex_entry_def)
qed

section \<open>Topic preference\<close>

text \<open>
  Claim C5. The requester \<open>r1\<close> joins as Intermediate with the topic Fish while \<open>x1\<close>
  waits in the Intermediate queue without a topic. The pool searched is the Intermediate
  queue, which by then also holds the entry of \<open>r1\<close>; \<open>findMatch\<close> returns that entry as
  the topic match, \<open>attemptMatch\<close> rejects it as a self-match, and the handler ends with
  both connections queued, no session, and the \<open>queued\<close> event as its only output:
  there is no fall-back to the head \<open>x1\<close>.
\<close>

theorem C5_own_entry_blocks_fallback:
  "findMatch Intermediate (Some ''Fish'')
     (adviceQueue (queued_state ex_env ''r1'' (ex_info ''r1'') Intermediate (Some ''Fish'') ex_state_topic))
     = Some (new_entry ex_env ''r1'' (ex_info ''r1'') Intermediate (Some ''Fish''))
   \<and> join_advice_queue ex_env ''r1'' ''Intermediate'' (Some ''Fish'') ex_state_topic =
       (ex_state_topic\<lparr>adviceQueue :=
          \<lparr>beginner = [],
           intermediate = [ex_entry ''x1'' Intermediate None 1100,
                           new_entry ex_env ''r1'' (ex_info ''r1'') Intermediate (Some ''Fish'')],
           advanced = []\<rparr>\<rparr>,
        [(ToSocket ''r1'', Queued Intermediate (Some ''Fish'') 2)])
   \<and> activeAdviceSessions
        (fst (join_advice_queue ex_env ''r1'' ''Intermediate'' (Some ''Fish'') ex_state_topic)) = []"
proof -
  have q2: "adviceQueue (queued_state ex_env ''r1'' (ex_info ''r1'') Intermediate (Some ''Fish'') ex_state_topic)
      = \<lparr>beginner = [],
         intermediate = [ex_entry ''x1'' Intermediate None 1100,
                         new_entry ex_env ''r1'' (ex_info ''r1'') Intermediate (Some ''Fish'')],
         advanced = []\<rparr>"
    by (simp add: queued_state_def queue_push_def removeFromQueue_def ex_state_topic_def
        ex_entry_def)
  have fm: "findMatch Intermediate (Some ''Fish'')
     (adviceQueue (queued_state ex_env ''r1'' (ex_info ''r1'') Intermediate (Some ''Fish'') ex_state_topic))
     = Some (new_entry ex_env ''r1'' (ex_info ''r1'') Intermediate (Some ''Fish''))"
    unfolding q2
    by (simp add: findMatch_def candidates_for_def truthy_def js_or_def new_entry_def ex_entry_def)
  have am: "attemptMatch ex_env ''r1'' Intermediate (Some ''Fish'')
      (queued_state ex_env ''r1'' (ex_info ''r1'') Intermediate (Some ''Fish'') ex_state_topic)
     = (queued_state ex_env ''r1'' (ex_info ''r1'') Intermediate (Some ''Fish'') ex_state_topic, [])"
    by (rule attemptMatch_unmatched) (simp add: fm)
  have auth: "activeUsers ex_state_topic ''r1'' = Some (ex_info ''r1'')"
    by (simp add: ex_state_topic_def)
  have j: "join_advice_queue ex_env ''r1'' ''Intermediate'' (Some ''Fish'') ex_state_topic =
       (ex_state_topic\<lparr>adviceQueue :=
          \<lparr>beginner = [],
           intermediate = [ex_entry ''x1'' Intermediate None 1100,
                           new_entry ex_env ''r1'' (ex_info ''r1'') Intermediate (Some ''Fish'')],
           advanced = []\<rparr>\<rparr>,
        [(ToSocket ''r1'', Queued Intermediate (Some ''Fish'') 2)])"
    unfolding join_advice_queue_queued[OF auth parse_level_simps(2)] am
    by (simp add: q2 queue_of_def) (simp add: queued_state_def q2[unfolded queued_state_def, simplified])
  show ?thesis
    using fm j by (simp add: ex_state_topic_def)
qed

section \<open>Messages on a session\<close>

lemma advice_message_unauthenticated:
  "activeUsers s sid = None \<Longrightarrow>
   advice_message e sid sessId message photo s = (s, [(ToSocket sid, Error ''Not authenticated'')])"
  by (simp add: advice_message_def)

lemma advice_message_not_found:
  "activeUsers s sid = Some info \<Longrightarrow> map_of (activeAdviceSessions s) sessId = None \<Longrightarrow>
   advice_message e sid sessId message photo s = (s, [(ToSocket sid, Error ''Session not found'')])"
  by (simp add: advice_message_def)

lemma advice_message_not_participant:
  "activeUsers s sid = Some info \<Longrightarrow> map_of (activeAdviceSessions s) sessId = Some sess \<Longrightarrow>
   \<not> is_participant sess sid \<Longrightarrow>
   advice_message e sid sessId message photo s =
     (s, [(ToSocket sid, Error ''Not authorized for this session'')])"
  by (simp add: advice_message_def is_participant_def)

lemma advice_message_ended:
  "activeUsers s sid = Some info \<Longrightarrow> map_of (activeAdviceSessions s) sessId = Some sess \<Longrightarrow>
   is_participant sess sid \<Longrightarrow> ended sess \<Longrightarrow>
   advice_message e sid sessId message photo s = (s, [(ToSocket sid, Error ''Session has ended'')])"
  by (auto simp: advice_message_def is_participant_def)

lemma advice_message_accepted:
  "activeUsers s sid = Some info \<Longrightarrow> map_of (activeAdviceSessions s) sessId = Some sess \<Longrightarrow>
   is_participant sess sid \<Longrightarrow> \<not> ended sess \<Longrightarrow>
   \<exists>msg. m_message msg = message \<and> m_userId msg = u_userId info \<and>
     advice_message e sid sessId message photo s =
       (s\<lparr>activeAdviceSessions :=
            AList.update sessId (sess\<lparr>messages := messages sess @ [msg]\<rparr>) (activeAdviceSessions s)\<rparr>,
        [(ToSocket (partnerSocketId sess sid), AdviceMessageOut msg),
         (ToSocket sid, AdviceMessageSent (m_id msg))])"
  by (auto simp: advice_message_def is_participant_def Let_def)

section \<open>The disconnect handler\<close>

lemma leave_all_rooms_fst:
  "fst (leave_all_rooms sid name rooms) = map (\<lambda>(r, members). (r, members - {sid})) rooms"
  by (induction rooms) (auto simp: Let_def)

lemma leave_all_rooms_snd:
  "x \<in> set (snd (leave_all_rooms sid name rooms)) \<Longrightarrow> \<exists>r. snd x = UserLeftRoom name r"
  by (induction rooms) (auto simp: Let_def split: if_splits)

text \<open>What the session loop does to one entry, and which entries it notifies about.\<close>

lemma end_sessions_of_fst:
  "fst (end_sessions_of e sid al) =
     map (\<lambda>(i, sess). (i, if is_participant sess sid \<and> \<not> ended sess
                             then sess\<lparr>ended := True, endedAt := Some (now e)\<rparr> else sess)) al"
  by (induction e sid al rule: end_sessions_of.induct) (simp_all add: Let_def is_participant_def)

lemma end_sessions_of_snd:
  "snd (end_sessions_of e sid al) =
     map (\<lambda>(i, sess). (ToSocket (partnerSocketId sess sid), PartnerDisconnected i))
       (filter (\<lambda>(i, sess). is_participant sess sid \<and> \<not> ended sess) al)"
  by (induction e sid al rule: end_sessions_of.induct) (simp_all add: Let_def is_participant_def)

lemma filter_key_distinct:
  "distinct (map fst al) \<Longrightarrow> (k, v) \<in> set al \<Longrightarrow> filter (\<lambda>p. fst p = k) al = [(k, v)]"
proof (induction al)
  case Nil
  then show ?case by simp
next
  case (Cons p al)
  show ?case
  proof (cases "fst p = k")
    case True
    with Cons.prems have notin: "k \<notin> fst ` set al" by auto
    then have "(k, v) \<notin> set al" by force
    with Cons.prems True have "p = (k, v)" by auto
    moreover have "filter (\<lambda>p. fst p = k) al = []"
      using notin by (auto simp: filter_empty_conv)
    ultimately show ?thesis by simp
  next
    case False
    with Cons show ?thesis by auto
  qed
qed

lemma map_of_map_values:
  "map_of (map (\<lambda>(i, v). (i, f i v)) al) k = map_option (f k) (map_of al k)"
  by (induction al) auto

lemma notifications_for_session:
  assumes "distinct (map fst al)" and "(i, sess) \<in> set al"
    and "is_participant sess sid" and "\<not> ended sess"
  shows "filter (\<lambda>x. snd x = PartnerDisconnected i) (snd (end_sessions_of e sid al))
           = [(ToSocket (partnerSocketId sess sid), PartnerDisconnected i)]"
proof -
  let ?Q = "\<lambda>(i, sess). is_participant sess sid \<and> \<not> ended sess"
  let ?g = "\<lambda>(i, sess). (ToSocket (partnerSocketId sess sid), PartnerDisconnected i)"
  have "filter (\<lambda>x. snd x = PartnerDisconnected i) (map ?g (filter ?Q al))
      = map ?g (filter (\<lambda>p. fst p = i) (filter ?Q al))"
    by (induction al) auto
  also have "filter (\<lambda>p. fst p = i) (filter ?Q al) = filter ?Q (filter (\<lambda>p. fst p = i) al)"
    by (induction al) auto
  also have "filter (\<lambda>p. fst p = i) al = [(i, sess)]"
    using assms(1,2) by (rule filter_key_distinct)
  finally show ?thesis using assms(3,4) by (simp add: end_sessions_of_snd)
qed

lemma disconnect_fields:
  "adviceQueue (fst (disconnect e sid s)) = removeFromQueue sid (adviceQueue s)"
  "roomMembers (fst (disconnect e sid s)) =
     fst (leave_all_rooms sid (display_name (activeUsers s sid)) (roomMembers s))"
  "activeAdviceSessions (fst (disconnect e sid s)) = fst (end_sessions_of e sid (activeAdviceSessions s))"
  "activeUsers (fst (disconnect e sid s)) = (activeUsers s)(sid := None)"
  "userSockets (fst (disconnect e sid s)) =
     (case activeUsers s sid of None \<Rightarrow> userSockets s
      | Some info \<Rightarrow> (userSockets s)(u_userId info := None))"
  "snd (disconnect e sid s) =
     snd (leave_all_rooms sid (display_name (activeUsers s sid)) (roomMembers s)) @
     snd (end_sessions_of e sid (activeAdviceSessions s))"
  by (auto simp: disconnect_def Let_def split: option.splits)

section \<open>Invariants of runs\<close>

subsection \<open>Session ids stay distinct\<close>

lemma session_keys_attemptMatch:
  "distinct (map fst (activeAdviceSessions s)) \<Longrightarrow>
   distinct (map fst (activeAdviceSessions (fst (attemptMatch e sid l tp s))))"
  by (auto simp: attemptMatch_def Let_def distinct_update split: option.splits)

lemma session_keys_handle:
  assumes "distinct (map fst (activeAdviceSessions s))"
  shows "distinct (map fst (activeAdviceSessions (fst (handle e sid ev s))))"
proof (cases ev)
  case (JoinAdviceQueue l tp)
  have "distinct (map fst (activeAdviceSessions (fst (attemptMatch e sid l' tp s'))))"
    if "activeAdviceSessions s' = activeAdviceSessions s" for l' s'
    using assms that session_keys_attemptMatch[of s' e sid l' tp] by simp
  then show ?thesis
    using assms JoinAdviceQueue
    by (auto simp: join_advice_queue_def Let_def split: option.splits)
next
  case Disconnect
  have "map fst (fst (end_sessions_of e sid (activeAdviceSessions s))) = map fst (activeAdviceSessions s)"
    by (simp add: end_sessions_of_fst split_beta)
  then show ?thesis
    using assms Disconnect by (simp add: disconnect_fields(3))
qed (use assms in \<open>auto simp: authenticate_def join_room_def leave_room_def
      leave_advice_queue_def advice_message_def end_advice_session_def submit_feedback_def
      Let_def distinct_update split: option.splits\<close>)

lemma session_keys_run:
  "distinct (map fst (activeAdviceSessions s)) \<Longrightarrow>
   distinct (map fst (activeAdviceSessions (run evs s)))"
  by (induction evs s rule: run.induct) (simp_all add: session_keys_handle)

lemma session_keys_reachable: "distinct (map fst (activeAdviceSessions (run evs init_state)))"
  by (rule session_keys_run) (simp add: init_state_def)

subsection \<open>Participants are authenticated until they disconnect\<close>

lemma registry_coversI:
  assumes "\<And>u. u \<in> set (all_entries (adviceQueue s)) \<Longrightarrow> activeUsers s (socketId u) \<noteq> None"
    and "\<And>i sess c. (i, sess) \<in> set (activeAdviceSessions s) \<Longrightarrow> is_participant sess c \<Longrightarrow>
           activeUsers s c \<noteq> None \<or> c \<in> D"
  shows "registry_covers D s"
  using assms unfolding registry_covers_def by blast

lemma registry_covers_queue:
  "registry_covers D s \<Longrightarrow> u \<in> set (all_entries (adviceQueue s)) \<Longrightarrow>
   activeUsers s (socketId u) \<noteq> None"
  unfolding registry_covers_def by blast

lemma registry_covers_session:
  "registry_covers D s \<Longrightarrow> (i, sess) \<in> set (activeAdviceSessions s) \<Longrightarrow>
   is_participant sess c \<Longrightarrow> activeUsers s c \<noteq> None \<or> c \<in> D"
  unfolding registry_covers_def by blast

lemma update_same_participants:
  assumes "map_of al k = Some sess" and "user1 sess' = user1 sess" and "user2 sess' = user2 sess"
    and "(i, x) \<in> set (AList.update k sess' al)" and "is_participant x c"
  shows "\<exists>x'. (i, x') \<in> set al \<and> is_participant x' c"
proof -
  from assms(4) set_update_subset have "(i, x) = (k, sess') \<or> (i, x) \<in> set al" by fastforce
  then show ?thesis
  proof
    assume "(i, x) = (k, sess')"
    moreover have "(k, sess) \<in> set al" using assms(1) by (rule map_of_SomeD)
    ultimately show ?thesis using assms(2,3,5) by (auto simp: is_participant_def)
  next
    assume "(i, x) \<in> set al"
    then show ?thesis using assms(5) by blast
  qed
qed

lemma registry_covers_update:
  assumes "registry_covers D s" and "map_of (activeAdviceSessions s) k = Some sess"
    and "user1 sess' = user1 sess" and "user2 sess' = user2 sess"
  shows "registry_covers D (s\<lparr>activeAdviceSessions := AList.update k sess' (activeAdviceSessions s)\<rparr>)"
proof (rule registry_coversI)
  fix u
  assume "u \<in> set (all_entries (adviceQueue
      (s\<lparr>activeAdviceSessions := AList.update k sess' (activeAdviceSessions s)\<rparr>)))"
  then show "activeUsers (s\<lparr>activeAdviceSessions := AList.update k sess' (activeAdviceSessions s)\<rparr>)
      (socketId u) \<noteq> None"
    using registry_covers_queue[OF assms(1), of u] by simp
next
  fix i x c
  assume "(i, x) \<in> set (activeAdviceSessions
      (s\<lparr>activeAdviceSessions := AList.update k sess' (activeAdviceSessions s)\<rparr>))"
    and c: "is_participant x c"
  then have "(i, x) \<in> set (AList.update k sess' (activeAdviceSessions s))" by simp
  from update_same_participants[OF assms(2,3,4) this c]
  obtain x' where "(i, x') \<in> set (activeAdviceSessions s)" "is_participant x' c" by blast
  then show "activeUsers (s\<lparr>activeAdviceSessions := AList.update k sess' (activeAdviceSessions s)\<rparr>) c
      \<noteq> None \<or> c \<in> D"
    using registry_covers_session[OF assms(1)] by simp
qed

lemma registry_covers_queued_state:
  assumes "registry_covers D s" and "activeUsers s sid = Some info"
  shows "registry_covers D (queued_state e sid info l tp s)"
proof (rule registry_coversI)
  have users: "activeUsers (queued_state e sid info l tp s) = activeUsers s"
    by (simp add: queued_state_def)
  fix u
  assume "u \<in> set (all_entries (adviceQueue (queued_state e sid info l tp s)))"
  then have "u = new_entry e sid info l tp \<or> u \<in> set (all_entries (adviceQueue s))"
    by (auto simp: all_entries_queued_state)
  then show "activeUsers (queued_state e sid info l tp s) (socketId u) \<noteq> None"
    using assms(2) registry_covers_queue[OF assms(1), of u] by (auto simp: users)
next
  have users: "activeUsers (queued_state e sid info l tp s) = activeUsers s"
    by (simp add: queued_state_def)
  fix i x c
  assume "(i, x) \<in> set (activeAdviceSessions (queued_state e sid info l tp s))"
    and "is_participant x c"
  then show "activeUsers (queued_state e sid info l tp s) c \<noteq> None \<or> c \<in> D"
    using registry_covers_session[OF assms(1), of i x c] by (simp add: users sessions_queued_state)
qed

lemma attemptMatch_cases:
  "fst (attemptMatch e sid l tp s) = s \<or>
   (\<exists>entry m. findMatch l tp (adviceQueue s) = Some m \<and>
      fst (attemptMatch e sid l tp s) =
        s\<lparr>adviceQueue := removeFromQueue (socketId m) (removeFromQueue sid (adviceQueue s)),
          activeAdviceSessions :=
            AList.update (generateSessionId e) (new_session e sid entry m tp)
              (activeAdviceSessions s)\<rparr>)"
  by (auto simp: attemptMatch_def Let_def split: option.splits)

lemma registry_covers_matched:
  assumes "registry_covers D s" and "activeUsers s sid \<noteq> None"
    and "findMatch l tp (adviceQueue s) = Some m"
  shows "registry_covers D
     (s\<lparr>adviceQueue := removeFromQueue (socketId m) (removeFromQueue sid (adviceQueue s)),
        activeAdviceSessions :=
          AList.update (generateSessionId e) (new_session e sid entry m tp)
            (activeAdviceSessions s)\<rparr>)"
proof (rule registry_coversI)
  fix u
  assume "u \<in> set (all_entries (adviceQueue
     (s\<lparr>adviceQueue := removeFromQueue (socketId m) (removeFromQueue sid (adviceQueue s)),
        activeAdviceSessions :=
          AList.update (generateSessionId e) (new_session e sid entry m tp)
            (activeAdviceSessions s)\<rparr>)))"
  then have "u \<in> set (all_entries (adviceQueue s))"
    by (simp add: all_entries_removeFromQueue)
  then show "activeUsers
     (s\<lparr>adviceQueue := removeFromQueue (socketId m) (removeFromQueue sid (adviceQueue s)),
        activeAdviceSessions :=
          AList.update (generateSessionId e) (new_session e sid entry m tp)
            (activeAdviceSessions s)\<rparr>) (socketId u) \<noteq> None"
    using registry_covers_queue[OF assms(1), of u] by simp
next
  fix i x c
  assume "(i, x) \<in> set (activeAdviceSessions
     (s\<lparr>adviceQueue := removeFromQueue (socketId m) (removeFromQueue sid (adviceQueue s)),
        activeAdviceSessions :=
          AList.update (generateSessionId e) (new_session e sid entry m tp)
            (activeAdviceSessions s)\<rparr>))"
    and c: "is_participant x c"
  then have "(i, x) \<in> set (AList.update (generateSessionId e) (new_session e sid entry m tp)
            (activeAdviceSessions s))"
    by simp
  with set_update_subset
  have "(i, x) = (generateSessionId e, new_session e sid entry m tp) \<or>
        (i, x) \<in> set (activeAdviceSessions s)"
    by fastforce
  then have "activeUsers s c \<noteq> None \<or> c \<in> D"
  proof
    assume "(i, x) = (generateSessionId e, new_session e sid entry m tp)"
    with c have "c = sid \<or> c = socketId m"
      by (auto simp: is_participant_def new_session_def participant_of_def)
    moreover have "activeUsers s (socketId m) \<noteq> None"
      using registry_covers_queue[OF assms(1) findMatch_in_queue[OF assms(3)]] .
    ultimately show ?thesis using assms(2) by auto
  next
    assume "(i, x) \<in> set (activeAdviceSessions s)"
    then show ?thesis using registry_covers_session[OF assms(1)] c by blast
  qed
  then show "activeUsers
     (s\<lparr>adviceQueue := removeFromQueue (socketId m) (removeFromQueue sid (adviceQueue s)),
        activeAdviceSessions :=
          AList.update (generateSessionId e) (new_session e sid entry m tp)
            (activeAdviceSessions s)\<rparr>) c \<noteq> None \<or> c \<in> D"
    by simp
qed

lemma registry_covers_attemptMatch:
  assumes "registry_covers D s" and "activeUsers s sid \<noteq> None"
  shows "registry_covers D (fst (attemptMatch e sid l tp s))"
  using attemptMatch_cases[of e sid l tp s] assms(1) registry_covers_matched[OF assms]
  by auto

lemma registry_covers_join:
  assumes "registry_covers D s"
  shows "registry_covers D (fst (join_advice_queue e sid lvl tp s))"
proof (cases "activeUsers s sid")
  case None
  then show ?thesis using assms by (simp add: join_advice_queue_def)
next
  case (Some info)
  show ?thesis
  proof (cases "parse_level lvl")
    case None
    then show ?thesis using assms Some by (simp add: join_advice_queue_def)
  next
    case (Some l)
    have "activeUsers (queued_state e sid info l tp s) sid \<noteq> None"
      using \<open>activeUsers s sid = Some info\<close> by (simp add: queued_state_def)
    then show ?thesis
      using Some \<open>activeUsers s sid = Some info\<close> assms
      by (simp add: join_advice_queue_queued registry_covers_attemptMatch
          registry_covers_queued_state)
  qed
qed

lemma registry_covers_disconnect:
  assumes "registry_covers D s"
  shows "registry_covers (insert sid D) (fst (disconnect e sid s))"
proof (rule registry_coversI)
  fix u assume "u \<in> set (all_entries (adviceQueue (fst (disconnect e sid s))))"
  then have "u \<in> set (all_entries (adviceQueue s))" "socketId u \<noteq> sid"
    by (simp_all add: disconnect_fields(1) all_entries_removeFromQueue)
  then show "activeUsers (fst (disconnect e sid s)) (socketId u) \<noteq> None"
    using registry_covers_queue[OF assms, of u] by (simp add: disconnect_fields(4))
next
  fix i x c
  assume "(i, x) \<in> set (activeAdviceSessions (fst (disconnect e sid s)))"
    and c: "is_participant x c"
  then obtain x' where "(i, x') \<in> set (activeAdviceSessions s)" "is_participant x' c"
    by (auto simp: disconnect_fields(3) end_sessions_of_fst is_participant_def split: if_splits)
  then have "activeUsers s c \<noteq> None \<or> c \<in> D"
    using registry_covers_session[OF assms] by blast
  then show "activeUsers (fst (disconnect e sid s)) c \<noteq> None \<or> c \<in> insert sid D"
    by (auto simp: disconnect_fields(4))
qed

lemma registry_covers_same:
  assumes "registry_covers D s" and "adviceQueue s' = adviceQueue s"
    and "activeAdviceSessions s' = activeAdviceSessions s"
    and "\<And>c. activeUsers s c \<noteq> None \<Longrightarrow> activeUsers s' c \<noteq> None"
  shows "registry_covers D s'"
proof (rule registry_coversI)
  fix u assume "u \<in> set (all_entries (adviceQueue s'))"
  then show "activeUsers s' (socketId u) \<noteq> None"
    using registry_covers_queue[OF assms(1), of u] assms(2,4) by simp
next
  fix i x c
  assume "(i, x) \<in> set (activeAdviceSessions s')" and "is_participant x c"
  then show "activeUsers s' c \<noteq> None \<or> c \<in> D"
    using registry_covers_session[OF assms(1), of i x c] assms(3,4) by auto
qed

lemma disconnected_single:
  "disconnected [(e, sid, ev)] = (if ev = Disconnect then {sid} else {})"
  by (simp add: disconnected_def)

lemma registry_covers_handle:
  assumes "registry_covers D s"
  shows "registry_covers (D \<union> disconnected [(e, sid, ev)]) (fst (handle e sid ev s))"
proof (cases ev)
  case (Authenticate ud)
  have "registry_covers D (fst (authenticate e sid ud s))"
    by (rule registry_covers_same[OF assms]) (simp_all add: authenticate_def Let_def)
  then show ?thesis using Authenticate by (simp add: disconnected_single)
next
  case (JoinRoom r)
  have "registry_covers D (fst (join_room sid r s))"
    by (rule registry_covers_same[OF assms]) (simp_all add: join_room_def Let_def)
  then show ?thesis using JoinRoom by (simp add: disconnected_single)
next
  case (LeaveRoom r)
  have "registry_covers D (fst (leave_room sid r s))"
    by (rule registry_covers_same[OF assms]) (simp_all add: leave_room_def)
  then show ?thesis using LeaveRoom by (simp add: disconnected_single)
next
  case (JoinAdviceQueue l tp)
  then show ?thesis
    using registry_covers_join[OF assms] by (simp add: disconnected_single)
next
  case LeaveAdviceQueue
  have "registry_covers D (fst (leave_advice_queue sid s))"
  proof (rule registry_coversI)
    fix u assume "u \<in> set (all_entries (adviceQueue (fst (leave_advice_queue sid s))))"
    then have "u \<in> set (all_entries (adviceQueue s))"
      by (simp add: leave_advice_queue_def all_entries_removeFromQueue)
    then show "activeUsers (fst (leave_advice_queue sid s)) (socketId u) \<noteq> None"
      using registry_covers_queue[OF assms, of u] by (simp add: leave_advice_queue_def)
  next
    fix i x c
    assume "(i, x) \<in> set (activeAdviceSessions (fst (leave_advice_queue sid s)))"
      and "is_participant x c"
    then show "activeUsers (fst (leave_advice_queue sid s)) c \<noteq> None \<or> c \<in> D"
      using registry_covers_session[OF assms, of i x c] by (simp add: leave_advice_queue_def)
  qed
  then show ?thesis using LeaveAdviceQueue by (simp add: disconnected_single)
next
  case (AdviceMessage i m p)
  have "fst (advice_message e sid i m p s) = s \<or>
    (\<exists>sess msg. map_of (activeAdviceSessions s) i = Some sess \<and>
      fst (advice_message e sid i m p s) =
         s\<lparr>activeAdviceSessions :=
             AList.update i (sess\<lparr>messages := messages sess @ [msg]\<rparr>) (activeAdviceSessions s)\<rparr>)"
    by (auto simp: advice_message_def Let_def split: option.splits)
  then have "registry_covers D (fst (advice_message e sid i m p s))"
    using assms registry_covers_update[OF assms] by auto
  then show ?thesis using AdviceMessage by (simp add: disconnected_single)
next
  case (EndAdviceSession i)
  have "fst (end_advice_session e sid i s) = s \<or>
    (\<exists>sess. map_of (activeAdviceSessions s) i = Some sess \<and>
      fst (end_advice_session e sid i s) =
         s\<lparr>activeAdviceSessions :=
             AList.update i (sess\<lparr>ended := True, endedAt := Some (now e), endedBy := Some sid\<rparr>)
               (activeAdviceSessions s)\<rparr>)"
    by (auto simp: end_advice_session_def Let_def split: option.splits)
  then have "registry_covers D (fst (end_advice_session e sid i s))"
    using assms registry_covers_update[OF assms] by auto
  then show ?thesis using EndAdviceSession by (simp add: disconnected_single)
next
  case (SubmitFeedback i r c)
  have "fst (submit_feedback e sid i r c s) = s \<or>
    (\<exists>sess fb. map_of (activeAdviceSessions s) i = Some sess \<and>
      fst (submit_feedback e sid i r c s) =
         s\<lparr>activeAdviceSessions :=
             AList.update i (sess\<lparr>feedback := fb\<rparr>) (activeAdviceSessions s)\<rparr>)"
    by (auto simp: submit_feedback_def Let_def split: option.splits)
  then have "registry_covers D (fst (submit_feedback e sid i r c s))"
    using assms registry_covers_update[OF assms] by auto
  then show ?thesis using SubmitFeedback by (simp add: disconnected_single)
next
  case Disconnect
  then show ?thesis
    using registry_covers_disconnect[OF assms, of sid e] by (simp add: disconnected_single)
qed

lemma disconnected_Cons:
  "disconnected (x # tr) = disconnected [x] \<union> disconnected tr"
  by (auto simp: disconnected_def)

lemma registry_covers_run:
  "registry_covers D s \<Longrightarrow> registry_covers (D \<union> disconnected tr) (run tr s)"
proof (induction tr arbitrary: D s)
  case Nil
  then show ?case by (simp add: disconnected_def)
next
  case (Cons x tr)
  obtain e sid ev where x: "x = (e, sid, ev)" by (cases x)
  have "registry_covers (D \<union> disconnected [x] \<union> disconnected tr) (run tr (fst (handle e sid ev s)))"
    using Cons.IH[OF registry_covers_handle[OF Cons.prems, of e sid ev]] x by simp
  then show ?case
    using x disconnected_Cons[of x tr] by (simp add: Un_assoc)
qed

lemma participant_authenticated:
  assumes "map_of (activeAdviceSessions (run tr init_state)) sessId = Some sess"
    and "is_participant sess sid" and "sid \<notin> disconnected tr"
  shows "activeUsers (run tr init_state) sid \<noteq> None"
proof -
  have "registry_covers {} init_state"
    by (rule registry_coversI) (simp_all add: init_state_def all_entries_def)
  from registry_covers_run[OF this, of tr]
  have "registry_covers (disconnected tr) (run tr init_state)" by simp
  moreover have "(sessId, sess) \<in> set (activeAdviceSessions (run tr init_state))"
    using assms(1) by (rule map_of_SomeD)
  ultimately show ?thesis
    using assms(2,3) registry_covers_session by blast
qed

section \<open>Ended sessions and the order of the checks\<close>

text \<open>
  Claim C6. On a session whose \<open>ended\<close> flag is set, an \<open>advice-message\<close> from either
  participant leaves the whole state as it was (nothing is appended to the message log),
  emits nothing but an error to the sender (nothing goes to the partner), and for an
  authenticated sender that error is \<open>Session has ended\<close>. In a state reached by a run
  the sender is authenticated unless it has disconnected, so there the error is always
  \<open>Session has ended\<close>.
\<close>

theorem C6_ended_session_rejected:
  assumes "map_of (activeAdviceSessions s) sessId = Some sess"
    and "ended sess" and "is_participant sess sid"
  shows "fst (advice_message e sid sessId message photo s) = s
    \<and> (\<exists>err. snd (advice_message e sid sessId message photo s) = [(ToSocket sid, Error err)])
    \<and> (activeUsers s sid \<noteq> None \<longrightarrow>
          advice_message e sid sessId message photo s =
            (s, [(ToSocket sid, Error ''Session has ended'')]))
    \<and> (\<forall>tr. s = run tr init_state \<and> sid \<notin> disconnected tr \<longrightarrow>
          advice_message e sid sessId message photo s =
            (s, [(ToSocket sid, Error ''Session has ended'')]))"
proof -
  have ended_error: "advice_message e sid sessId message photo s =
      (s, [(ToSocket sid, Error ''Session has ended'')])" if "activeUsers s sid \<noteq> None"
    using that assms by (auto simp: advice_message_ended)
  have reachable: "activeUsers s sid \<noteq> None" if "s = run tr init_state \<and> sid \<notin> disconnected tr" for tr
    using that assms(1,3) participant_authenticated[of tr sessId sess sid] by simp
  have in_run: "\<forall>tr. s = run tr init_state \<and> sid \<notin> disconnected tr \<longrightarrow>
          advice_message e sid sessId message photo s =
            (s, [(ToSocket sid, Error ''Session has ended'')])"
    using reachable ended_error by blast
  have "fst (advice_message e sid sessId message photo s) = s
    \<and> (\<exists>err. snd (advice_message e sid sessId message photo s) = [(ToSocket sid, Error err)])"
  proof (cases "activeUsers s sid")
    case None
    then show ?thesis by (simp add: advice_message_unauthenticated)
  next
    case (Some info)
    then show ?thesis using ended_error by simp
  qed
  with ended_error in_run show ?thesis by blast
qed

lemma now_ex_env: "now ex_env = 1700"
  by (simp add: ex_env_def)

lemma generateSessionId_ex_env: "generateSessionId ex_env = ''advice_1700_k3x9q2m1z''"
  by (simp add: generateSessionId_def ex_env_def decimal.simps digit_char_def)

lemma run_ended_sessions:
  "activeAdviceSessions (run ex_run_ended init_state) = [(''advice_1700_k3x9q2m1z'', ex_session_run)]"
  by (simp add: ex_run_ended_def ex_session_run_def init_state_def authenticate_def ex_ud_def
      or_default_def js_or_def truthy_def join_advice_queue_def attemptMatch_def findMatch_def
      candidates_for_def queue_of_def queue_push_def removeFromQueue_def new_entry_def
      new_session_def participant_of_def generateSessionId_ex_env end_advice_session_def Let_def
      partnerSocketId_def now_ex_env)

theorem C6_ended_session_rejected_witness:
  "map_of (activeAdviceSessions (run ex_run_ended init_state)) ''advice_1700_k3x9q2m1z''
     = Some ex_session_run
   \<and> ended ex_session_run
   \<and> is_participant ex_session_run ''B''
   \<and> ''B'' \<notin> disconnected ex_run_ended
   \<and> advice_message ex_env ''B'' ''advice_1700_k3x9q2m1z'' ''are you there?'' None
        (run ex_run_ended init_state)
      = (run ex_run_ended init_state, [(ToSocket ''B'', Error ''Session has ended'')])"
proof -
  have h: "map_of (activeAdviceSessions (run ex_run_ended init_state)) ''advice_1700_k3x9q2m1z''
     = Some ex_session_run"
    "ended ex_session_run" "is_participant ex_session_run ''B''"
    by (simp_all add: run_ended_sessions ex_session_run_def is_participant_def)
  have live: "''B'' \<notin> disconnected ex_run_ended"
    by (simp add: disconnected_def ex_run_ended_def)
  have "advice_message ex_env ''B'' ''advice_1700_k3x9q2m1z'' ''are you there?'' None
        (run ex_run_ended init_state)
      = (run ex_run_ended init_state, [(ToSocket ''B'', Error ''Session has ended'')])"
    using C6_ended_session_rejected[OF h, where e = ex_env and message = "''are you there?''"
        and photo = None] live
    by blast
  with h live show ?thesis by simp
qed

text \<open>
  Claim C7 as stated puts the ended check before the participant check. On the ended
  session of \<open>A\<close> and \<open>B\<close>, the authenticated outsider \<open>Z\<close> is told
  \<open>Not authorized for this session\<close>, not \<open>Session has ended\<close>.
\<close>

theorem C7_ended_before_participant_counterexample:
  "map_of (activeAdviceSessions ex_state_ended) ''advice_1500_abc'' = Some ex_session_ended
   \<and> ended ex_session_ended
   \<and> \<not> is_participant ex_session_ended ''Z''
   \<and> snd (advice_message ex_env ''Z'' ''advice_1500_abc'' ''hi'' None ex_state_ended)
      = [(ToSocket ''Z'', Error ''Not authorized for this session'')]
   \<and> snd (advice_message ex_env ''Z'' ''advice_1500_abc'' ''hi'' None ex_state_ended)
      \<noteq> [(ToSocket ''Z'', Error ''Session has ended'')]"
  by (simp add: advice_message_def ex_state_ended_def ex_session_ended_def ex_session_def
      is_participant_def)

text \<open>
  Claim C7, amended. For an authenticated sender the handler checks, in this order:
  the session exists, else \<open>Session not found\<close>; the sender is one of the two
  participants, else \<open>Not authorized for this session\<close>; the session is not ended, else
  \<open>Session has ended\<close>. Each error leaves the state unchanged. So on an existing ended
  session a sender who is not a participant receives the authorization error.
\<close>

theorem C7_validation_order:
  assumes "activeUsers s sid = Some info"
  shows "(map_of (activeAdviceSessions s) sessId = None \<longrightarrow>
            advice_message e sid sessId message photo s =
              (s, [(ToSocket sid, Error ''Session not found'')]))
    \<and> (\<forall>sess. map_of (activeAdviceSessions s) sessId = Some sess \<and> \<not> is_participant sess sid \<longrightarrow>
            advice_message e sid sessId message photo s =
              (s, [(ToSocket sid, Error ''Not authorized for this session'')]))
    \<and> (\<forall>sess. map_of (activeAdviceSessions s) sessId = Some sess \<and> is_participant sess sid
            \<and> ended sess \<longrightarrow>
            advice_message e sid sessId message photo s =
              (s, [(ToSocket sid, Error ''Session has ended'')]))
    \<and> (\<forall>sess. map_of (activeAdviceSessions s) sessId = Some sess \<and> is_participant sess sid
            \<and> \<not> ended sess \<longrightarrow>
            (\<forall>x \<in> set (snd (advice_message e sid sessId message photo s)).
               \<forall>err. snd x \<noteq> Error err))"
proof (intro conjI allI impI)
  fix sess
  assume "map_of (activeAdviceSessions s) sessId = Some sess \<and> is_participant sess sid
            \<and> \<not> ended sess"
  then obtain msg where "advice_message e sid sessId message photo s =
       (s\<lparr>activeAdviceSessions :=
            AList.update sessId (sess\<lparr>messages := messages sess @ [msg]\<rparr>) (activeAdviceSessions s)\<rparr>,
        [(ToSocket (partnerSocketId sess sid), AdviceMessageOut msg),
         (ToSocket sid, AdviceMessageSent (m_id msg))])"
    using advice_message_accepted[OF assms, of sessId sess message e photo] by blast
  then show "\<forall>x \<in> set (snd (advice_message e sid sessId message photo s)).
               \<forall>err. snd x \<noteq> Error err"
    by simp
qed (use assms in \<open>simp_all add: advice_message_not_found advice_message_not_participant
      advice_message_ended\<close>)

theorem C7_validation_order_witness:
  "activeUsers ex_state_ended ''Z'' = Some (ex_info ''Z'')
   \<and> map_of (activeAdviceSessions ex_state_ended) ''advice_1500_abc'' = Some ex_session_ended
   \<and> \<not> is_participant ex_session_ended ''Z''
   \<and> ended ex_session_ended
   \<and> advice_message ex_env ''Z'' ''advice_1500_abc'' ''hi'' None ex_state_ended
      = (ex_state_ended, [(ToSocket ''Z'', Error ''Not authorized for this session'')])"
proof -
  have auth: "activeUsers ex_state_ended ''Z'' = Some (ex_info ''Z'')"
    by (simp add: ex_state_ended_def)
  have h: "map_of (activeAdviceSessions ex_state_ended) ''advice_1500_abc'' = Some ex_session_ended"
    "\<not> is_participant ex_session_ended ''Z''" "ended ex_session_ended"
    by (simp_all add: ex_state_ended_def ex_session_ended_def ex_session_def is_participant_def)
  show ?thesis
    using C7_validation_order[OF auth, where sessId = "''advice_1500_abc''" and e = ex_env
        and message = "''hi''" and photo = None] auth h
    by simp
qed

section \<open>Disconnect cascade\<close>

text \<open>
  What the disconnect handler does in every state whose session ids are distinct (they
  are the keys of a \<open>Map\<close>, and distinct in every state a run reaches,
  \<open>session_keys_reachable\<close>): every session that has \<open>sid\<close> as a participant and is not
  ended is stored ended afterwards, and the output holds exactly one
  \<open>partner-disconnected\<close> event for it, addressed to the other participant; no event of
  the output is a feedback request; no queue entry and no room membership set mentions
  \<open>sid\<close> any more; \<open>activeUsers\<close> has no entry for \<open>sid\<close>, and \<open>userSockets\<close> has none
  under the user id of its identity.
\<close>

lemma disconnect_cascade:
  assumes "distinct (map fst (activeAdviceSessions s))"
  shows "(\<forall>(i, sess) \<in> set (activeAdviceSessions s).
            (sid = socketId (user1 sess) \<or> sid = socketId (user2 sess)) \<and> \<not> ended sess \<longrightarrow>
              map_of (activeAdviceSessions (fst (disconnect e sid s))) i
                = Some (sess\<lparr>ended := True, endedAt := Some (now e)\<rparr>)
              \<and> filter (\<lambda>x. snd x = PartnerDisconnected i) (snd (disconnect e sid s))
                = [(ToSocket (if sid = socketId (user1 sess) then socketId (user2 sess)
                              else socketId (user1 sess)),
                    PartnerDisconnected i)])
    \<and> (\<forall>x \<in> set (snd (disconnect e sid s)). \<forall>i. snd x \<noteq> RequestFeedback i)
    \<and> (\<forall>u \<in> set (all_entries (adviceQueue (fst (disconnect e sid s)))). socketId u \<noteq> sid)
    \<and> (\<forall>(r, members) \<in> set (roomMembers (fst (disconnect e sid s))). sid \<notin> members)
    \<and> activeUsers (fst (disconnect e sid s)) sid = None
    \<and> (\<forall>info. activeUsers s sid = Some info \<longrightarrow>
          userSockets (fst (disconnect e sid s)) (u_userId info) = None)"
proof (intro conjI)
  show "\<forall>(i, sess) \<in> set (activeAdviceSessions s).
            (sid = socketId (user1 sess) \<or> sid = socketId (user2 sess)) \<and> \<not> ended sess \<longrightarrow>
              map_of (activeAdviceSessions (fst (disconnect e sid s))) i
                = Some (sess\<lparr>ended := True, endedAt := Some (now e)\<rparr>)
              \<and> filter (\<lambda>x. snd x = PartnerDisconnected i) (snd (disconnect e sid s))
                = [(ToSocket (if sid = socketId (user1 sess) then socketId (user2 sess)
                              else socketId (user1 sess)),
                    PartnerDisconnected i)]"
  proof (intro ballI, clarify)
    fix i sess
    assume mem: "(i, sess) \<in> set (activeAdviceSessions s)"
      and "sid = socketId (user1 sess) \<or> sid = socketId (user2 sess)" and live: "\<not> ended sess"
    then have part: "is_participant sess sid" by (auto simp: is_participant_def)
    have look: "map_of (activeAdviceSessions s) i = Some sess"
      using assms mem by simp
    have stored: "map_of (activeAdviceSessions (fst (disconnect e sid s))) i
                = Some (sess\<lparr>ended := True, endedAt := Some (now e)\<rparr>)"
      using part live
      by (simp add: disconnect_fields(3) end_sessions_of_fst map_of_map_values look)
    have rooms: "filter (\<lambda>x. snd x = PartnerDisconnected i)
        (snd (leave_all_rooms sid (display_name (activeUsers s sid)) (roomMembers s))) = []"
      by (auto simp: filter_empty_conv dest: leave_all_rooms_snd)
    have told: "filter (\<lambda>x. snd x = PartnerDisconnected i) (snd (disconnect e sid s))
                = [(ToSocket (partnerSocketId sess sid), PartnerDisconnected i)]"
      by (simp add: disconnect_fields(6) rooms notifications_for_session[OF assms mem part live])
    have other: "partnerSocketId sess sid =
        (if sid = socketId (user1 sess) then socketId (user2 sess) else socketId (user1 sess))"
      by (auto simp: partnerSocketId_def)
    from stored told other
    show "map_of (activeAdviceSessions (fst (disconnect e sid s))) i
                = Some (sess\<lparr>ended := True, endedAt := Some (now e)\<rparr>)
              \<and> filter (\<lambda>x. snd x = PartnerDisconnected i) (snd (disconnect e sid s))
                = [(ToSocket (if sid = socketId (user1 sess) then socketId (user2 sess)
                              else socketId (user1 sess)),
                    PartnerDisconnected i)]"
      by simp
  qed
  show "\<forall>x \<in> set (snd (disconnect e sid s)). \<forall>i. snd x \<noteq> RequestFeedback i"
    by (auto simp: disconnect_fields(6) end_sessions_of_snd dest: leave_all_rooms_snd)
  show "\<forall>u \<in> set (all_entries (adviceQueue (fst (disconnect e sid s)))). socketId u \<noteq> sid"
    by (simp add: disconnect_fields(1) all_entries_removeFromQueue)
  show "\<forall>(r, members) \<in> set (roomMembers (fst (disconnect e sid s))). sid \<notin> members"
    by (auto simp: disconnect_fields(2) leave_all_rooms_fst)
  show "activeUsers (fst (disconnect e sid s)) sid = None"
    by (simp add: disconnect_fields(4))
  show "\<forall>info. activeUsers s sid = Some info \<longrightarrow>
          userSockets (fst (disconnect e sid s)) (u_userId info) = None"
    by (simp add: disconnect_fields(5))
qed

text \<open>In \<open>ex_state_live\<close> the disconnect of \<open>A\<close> notifies \<open>B\<close>, and that of \<open>B\<close> notifies \<open>A\<close>.\<close>

lemma disconnect_cascade_example:
  "snd (disconnect ex_env ''A'' ex_state_live)
      = [(ToRoomExcept ''Reef'' ''A'', UserLeftRoom ''A'' ''Reef''),
         (ToSocket ''B'', PartnerDisconnected ''advice_1500_abc'')]
   \<and> snd (disconnect ex_env ''B'' ex_state_live)
      = [(ToRoomExcept ''Reef'' ''B'', UserLeftRoom ''B'' ''Reef''),
         (ToSocket ''A'', PartnerDisconnected ''advice_1500_abc'')]
   \<and> adviceQueue (fst (disconnect ex_env ''A'' ex_state_live))
      = \<lparr>beginner = [], intermediate = [], advanced = []\<rparr>
   \<and> roomMembers (fst (disconnect ex_env ''A'' ex_state_live)) = [(''Reef'', {''B''})]
   \<and> map_of (activeAdviceSessions (fst (disconnect ex_env ''A'' ex_state_live))) ''advice_1500_abc''
      = Some (ex_session\<lparr>ended := True, endedAt := Some 1700\<rparr>)"
proof -
  have d: "distinct (map fst (activeAdviceSessions ex_state_live))"
    by (simp add: ex_state_live_def)
  have out: "snd (disconnect ex_env ''A'' ex_state_live)
      = [(ToRoomExcept ''Reef'' ''A'', UserLeftRoom ''A'' ''Reef''),
         (ToSocket ''B'', PartnerDisconnected ''advice_1500_abc'')]"
    "snd (disconnect ex_env ''B'' ex_state_live)
      = [(ToRoomExcept ''Reef'' ''B'', UserLeftRoom ''B'' ''Reef''),
         (ToSocket ''A'', PartnerDisconnected ''advice_1500_abc'')]"
    by (simp_all add: disconnect_fields(6) ex_state_live_def ex_session_def ex_info_def
        display_name_def or_default_def partnerSocketId_def Let_def)
  have rest: "adviceQueue (fst (disconnect ex_env ''A'' ex_state_live))
      = \<lparr>beginner = [], intermediate = [], advanced = []\<rparr>"
    "roomMembers (fst (disconnect ex_env ''A'' ex_state_live)) = [(''Reef'', {''B''})]"
    by (auto simp: disconnect_fields ex_state_live_def removeFromQueue_def ex_entry_def Let_def)
  show ?thesis
    using disconnect_cascade[OF d, where sid = "''A''" and e = ex_env] out rest
    by (simp add: ex_state_live_def ex_session_def ex_info_def ex_env_def)
qed

text \<open>
  Claim C8. The connection \<open>A\<close> authenticates as the user \<open>u1\<close>, authenticates again as
  the user \<open>u2\<close>, and disconnects. Each \<open>authenticate\<close> writes an entry of the user-id
  index \<open>userSockets\<close> that points to \<open>A\<close>; the disconnect handler deletes the entry of
  \<open>A\<close> in \<open>activeUsers\<close> and the entry under \<open>u2\<close>, the user id of its current identity,
  and nothing else: after the disconnect \<open>userSockets\<close> still maps \<open>u1\<close> to \<open>A\<close>. The
  registry entries of the connection are not all purged.
\<close>

theorem C8_stale_user_id_entry:
  "userSockets (run (butlast ex_run_reauth) init_state) ''u1'' = Some ''A''
   \<and> userSockets (run (butlast ex_run_reauth) init_state) ''u2'' = Some ''A''
   \<and> map_option u_userId (activeUsers (run (butlast ex_run_reauth) init_state) ''A'') = Some ''u2''
   \<and> run ex_run_reauth init_state
        = fst (disconnect ex_env_later ''A'' (run (butlast ex_run_reauth) init_state))
   \<and> snd (disconnect ex_env_later ''A'' (run (butlast ex_run_reauth) init_state)) = []
   \<and> activeUsers (run ex_run_reauth init_state) ''A'' = None
   \<and> userSockets (run ex_run_reauth init_state) ''u2'' = None
   \<and> userSockets (run ex_run_reauth init_state) ''u1'' = Some ''A''"
  by (simp add: ex_run_reauth_def init_state_def authenticate_def disconnect_def ex_ud_id_def
      ex_ud_def or_default_def js_or_def truthy_def removeFromQueue_def display_name_def Let_def)

section \<open>Feedback\<close>

text \<open>
  What \<open>submit-feedback\<close> does on an existing session for an authenticated connection,
  participant or not, ended session or not: it emits \<open>feedback-submitted\<close> and nothing
  else, and assigns the feedback to the property of \<open>session.feedback\<close> named by the
  submitter's user id. For every user id but \<open>__proto__\<close> that stores it as an own
  property, replacing what was there and leaving the other properties alone. The
  handler emits an error exactly when the session id is unknown or the connection is not
  authenticated, and then the state is unchanged.
\<close>

lemma submit_feedback_no_participant_check:
  "(\<forall>sess info. map_of (activeAdviceSessions s) sessId = Some sess \<and> activeUsers s sid = Some info \<longrightarrow>
       snd (submit_feedback e sid sessId r c s) = [(ToSocket sid, FeedbackSubmitted sessId)]
     \<and> map_of (activeAdviceSessions (fst (submit_feedback e sid sessId r c s))) sessId
        = Some (sess\<lparr>feedback := assign_property (feedback sess) (u_userId info)
                  \<lparr>rating = r, comment = js_or c None, f_timestamp = now e\<rparr>\<rparr>)
     \<and> (u_userId info \<noteq> ''__proto__'' \<longrightarrow>
          assign_property (feedback sess) (u_userId info)
              \<lparr>rating = r, comment = js_or c None, f_timestamp = now e\<rparr>
          = (feedback sess)\<lparr>own_props := (own_props (feedback sess))
               (u_userId info \<mapsto> \<lparr>rating = r, comment = js_or c None, f_timestamp = now e\<rparr>)\<rparr>))
   \<and> ((\<exists>err. (ToSocket sid, Error err) \<in> set (snd (submit_feedback e sid sessId r c s)))
        \<longleftrightarrow> map_of (activeAdviceSessions s) sessId = None \<or> activeUsers s sid = None)
   \<and> (map_of (activeAdviceSessions s) sessId = None \<or> activeUsers s sid = None \<longrightarrow>
        fst (submit_feedback e sid sessId r c s) = s)"
  by (auto simp: submit_feedback_def assign_property_def Let_def update_conv' split: option.splits)

lemma run_proto_state:
  "activeAdviceSessions (run ex_run_proto init_state) = [(''advice_1700_k3x9q2m1z'', ex_session_proto)]"
  "map_option u_userId (activeUsers (run ex_run_proto init_state) ''B'') = Some ''__proto__''"
  by (simp_all add: ex_run_proto_def ex_session_proto_def init_state_def authenticate_def ex_ud_def
      ex_ud_id_def or_default_def js_or_def truthy_def join_advice_queue_def attemptMatch_def
      findMatch_def candidates_for_def queue_of_def queue_push_def removeFromQueue_def
      new_entry_def new_session_def participant_of_def generateSessionId_ex_env Let_def
      now_ex_env)

text \<open>
  Claim C9. The connection \<open>B\<close> is authenticated with the user id \<open>__proto__\<close> and is a
  participant of the session the run \<open>ex_run_proto\<close> creates. Its \<open>submit-feedback\<close> on
  that session is answered with \<open>feedback-submitted\<close>, but the assignment
  \<open>session.feedback[userInfo.userId] = {...}\<close> makes the feedback the prototype of the
  feedback object: the object has no property under the submitter's user id afterwards,
  it has no own property at all.
\<close>

theorem C9_proto_user_id_not_stored:
  "map_of (activeAdviceSessions (run ex_run_proto init_state)) ''advice_1700_k3x9q2m1z''
     = Some ex_session_proto
   \<and> map_option u_userId (activeUsers (run ex_run_proto init_state) ''B'') = Some ''__proto__''
   \<and> snd (submit_feedback ex_env_later ''B'' ''advice_1700_k3x9q2m1z'' 5 (Some ''great'')
        (run ex_run_proto init_state))
      = [(ToSocket ''B'', FeedbackSubmitted ''advice_1700_k3x9q2m1z'')]
   \<and> map_of (activeAdviceSessions
         (fst (submit_feedback ex_env_later ''B'' ''advice_1700_k3x9q2m1z'' 5 (Some ''great'')
            (run ex_run_proto init_state))))
        ''advice_1700_k3x9q2m1z''
      = Some (ex_session_proto\<lparr>feedback :=
          \<lparr>own_props = Map.empty,
           prototype = Some \<lparr>rating = 5, comment = Some ''great'', f_timestamp = 1900\<rparr>\<rparr>\<rparr>)"
proof -
  obtain info where info: "activeUsers (run ex_run_proto init_state) ''B'' = Some info"
    and uid: "u_userId info = ''__proto__''"
    using run_proto_state(2) by (cases "activeUsers (run ex_run_proto init_state) ''B''") auto
  have look: "map_of (activeAdviceSessions (run ex_run_proto init_state)) ''advice_1700_k3x9q2m1z''
     = Some ex_session_proto"
    by (simp add: run_proto_state(1))
  have fb: "assign_property (feedback ex_session_proto) ''__proto__''
        \<lparr>rating = 5, comment = js_or (Some ''great'') None, f_timestamp = now ex_env_later\<rparr>
      = \<lparr>own_props = Map.empty,
         prototype = Some \<lparr>rating = 5, comment = Some ''great'', f_timestamp = 1900\<rparr>\<rparr>"
    by (simp add: assign_property_def ex_session_proto_def empty_object_def js_or_def truthy_def
        ex_env_later_def)
  show ?thesis
    using run_proto_state(2)
    by (simp add: submit_feedback_def look info uid fb Let_def update_conv')
qed

section \<open>Ending a session again\<close>

text \<open>
  Claim C10. On a session that is already ended, \<open>end-advice-session\<close> from either
  participant is accepted again: no error is emitted, the session stays ended, its end
  timestamp and ending party are overwritten with the new values, and \<open>session-ended\<close>
  and \<open>request-feedback\<close> go once more to both participants, first to the one that is
  not the caller and then to the caller.
\<close>

theorem C10_re_ending_accepted:
  assumes "map_of (activeAdviceSessions s) sessId = Some sess"
    and "ended sess"
    and "sid = socketId (user1 sess) \<or> sid = socketId (user2 sess)"
  shows "snd (end_advice_session e sid sessId s) =
           [(ToSocket (if sid = socketId (user1 sess) then socketId (user2 sess)
                       else socketId (user1 sess)), SessionEnded sessId),
            (ToSocket sid, SessionEnded sessId),
            (ToSocket (if sid = socketId (user1 sess) then socketId (user2 sess)
                       else socketId (user1 sess)), RequestFeedback sessId),
            (ToSocket sid, RequestFeedback sessId)]
    \<and> (ToSocket (socketId (user1 sess)), SessionEnded sessId)
          \<in> set (snd (end_advice_session e sid sessId s))
    \<and> (ToSocket (socketId (user2 sess)), SessionEnded sessId)
          \<in> set (snd (end_advice_session e sid sessId s))
    \<and> (ToSocket (socketId (user1 sess)), RequestFeedback sessId)
          \<in> set (snd (end_advice_session e sid sessId s))
    \<and> (ToSocket (socketId (user2 sess)), RequestFeedback sessId)
          \<in> set (snd (end_advice_session e sid sessId s))
    \<and> (\<forall>x \<in> set (snd (end_advice_session e sid sessId s)). \<forall>err. snd x \<noteq> Error err)
    \<and> map_of (activeAdviceSessions (fst (end_advice_session e sid sessId s))) sessId
        = Some (sess\<lparr>ended := True, endedAt := Some (now e), endedBy := Some sid\<rparr>)"
  using assms
  by (auto simp: end_advice_session_def partnerSocketId_def Let_def update_conv')

theorem C10_re_ending_accepted_witness:
  "map_of (activeAdviceSessions (run ex_run_ended init_state)) ''advice_1700_k3x9q2m1z''
     = Some ex_session_run
   \<and> ended ex_session_run \<and> endedAt ex_session_run = Some 1700
   \<and> endedBy ex_session_run = Some ''A''
   \<and> socketId (user1 ex_session_run) = ''B'' \<and> socketId (user2 ex_session_run) = ''A''
   \<and> snd (end_advice_session ex_env_later ''B'' ''advice_1700_k3x9q2m1z''
        (run ex_run_ended init_state)) =
        [(ToSocket ''A'', SessionEnded ''advice_1700_k3x9q2m1z''),
         (ToSocket ''B'', SessionEnded ''advice_1700_k3x9q2m1z''),
         (ToSocket ''A'', RequestFeedback ''advice_1700_k3x9q2m1z''),
         (ToSocket ''B'', RequestFeedback ''advice_1700_k3x9q2m1z'')]
   \<and> map_of (activeAdviceSessions (fst (end_advice_session ex_env_later ''B''
        ''advice_1700_k3x9q2m1z'' (run ex_run_ended init_state)))) ''advice_1700_k3x9q2m1z''
      = Some (ex_session_run\<lparr>ended := True, endedAt := Some 1900, endedBy := Some ''B''\<rparr>)
   \<and> snd (end_advice_session ex_env_later ''A'' ''advice_1700_k3x9q2m1z''
        (run ex_run_ended init_state)) =
        [(ToSocket ''B'', SessionEnded ''advice_1700_k3x9q2m1z''),
         (ToSocket ''A'', SessionEnded ''advice_1700_k3x9q2m1z''),
         (ToSocket ''B'', RequestFeedback ''advice_1700_k3x9q2m1z''),
         (ToSocket ''A'', RequestFeedback ''advice_1700_k3x9q2m1z'')]"
proof -
  have h: "map_of (activeAdviceSessions (run ex_run_ended init_state)) ''advice_1700_k3x9q2m1z''
     = Some ex_session_run" "ended ex_session_run"
    by (simp_all add: run_ended_sessions ex_session_run_def)
  have u: "socketId (user1 ex_session_run) = ''B''" "socketId (user2 ex_session_run) = ''A''"
    "endedAt ex_session_run = Some 1700" "endedBy ex_session_run = Some ''A''"
    by (simp_all add: ex_session_run_def)
  have pB: "''B'' = socketId (user1 ex_session_run) \<or> ''B'' = socketId (user2 ex_session_run)"
    and pA: "''A'' = socketId (user1 ex_session_run) \<or> ''A'' = socketId (user2 ex_session_run)"
    by (simp_all add: u)
  have later: "now ex_env_later = 1900" by (simp add: ex_env_later_def)
  show ?thesis
    using C10_re_ending_accepted[OF h pB, where e = ex_env_later]
      C10_re_ending_accepted[OF h pA, where e = ex_env_later] h
    by (simp add: u later)
qed

end
